theory Spec2Isabelle
  imports
    Main
    "HOL-Library.Char_ord"
    "HOL-Library.List_Lexorder"
    "HOL-Library.Option_ord"
    "HOL-Library.Multiset"
begin

section \<open>Python values the project index works with\<close>

text \<open>
  The exceptions that leave the modelled methods.  \<open>SystemMethods.raiseerror\<close> raises the
  exception it is given, catches it at once, writes \<open>ERROR(doc): message\<close> to stderr and calls
  \<open>sys.exit()\<close>: what leaves the call is \<open>SystemExit\<close>.  The constructor keeps the class
  that was handed to \<open>raiseerror\<close> and the message that went to stderr, so that both can be
  read off the outcome.
\<close>

datatype errclass =
    ProjectScanFailure | InputDataclassError | InputTypeError | KeywordError
  | InputValueError | UpdateAttributesFailed

datatype pyerr =
    TypeError | KeyError | AttributeError | IndexError | ValueError | OSError
  | EmptyProject | PipelineNotSet
  | SystemExit errclass string

definition raiseerror :: "errclass \<Rightarrow> string \<Rightarrow> pyerr" where
  "raiseerror exception message = SystemExit exception message"

text \<open>\<open>xs[i]\<close> for a Python list and an integer index: negative indices count from the end.\<close>

definition py_index :: "'a list \<Rightarrow> int \<Rightarrow> pyerr + 'a" where
  "py_index xs i =
     (if 0 \<le> i \<and> i < int (length xs) then Inr (xs ! nat i)
      else if - int (length xs) \<le> i \<and> i < 0 then Inr (xs ! nat (int (length xs) + i))
      else Inl IndexError)"

subsection \<open>Strings and paths\<close>

text \<open>\<open>s.split(c)\<close>, \<open>s.strip(c)\<close> and \<open>sep.join(xs)\<close> for a one-character separator.\<close>

fun split_on :: "char \<Rightarrow> string \<Rightarrow> string list" where
  "split_on c [] = [[]]"
| "split_on c (x # xs) =
     (if x = c then [] # split_on c xs
      else (x # hd (split_on c xs)) # tl (split_on c xs))"

definition strip_char :: "char \<Rightarrow> string \<Rightarrow> string" where
  "strip_char c s = rev (dropWhile (\<lambda>x. x = c) (rev (dropWhile (\<lambda>x. x = c) s)))"

fun join_str :: "string \<Rightarrow> string list \<Rightarrow> string" where
  "join_str sep [] = []"
| "join_str sep [x] = x"
| "join_str sep (x # y # ys) = x @ sep @ join_str sep (y # ys)"

text \<open>\<open>os.path.join(a, b)\<close> of \<open>posixpath\<close>.\<close>

definition os_path_join :: "string \<Rightarrow> string \<Rightarrow> string" where
  "os_path_join a b =
     (if b \<noteq> [] \<and> hd b = CHR ''/'' then b
      else if a = [] \<or> last a = CHR ''/'' then a @ b
      else a @ ''/'' @ b)"

fun common_prefix_len :: "'a list \<Rightarrow> 'a list \<Rightarrow> nat" where
  "common_prefix_len (x # xs) (y # ys) = (if x = y then Suc (common_prefix_len xs ys) else 0)"
| "common_prefix_len _ _ = 0"

text \<open>
  \<open>os.path.relpath(p, start)\<close> of \<open>posixpath\<close>, for two paths that are absolute and
  normalised already (the step \<open>abspath\<close> is then the identity): the components after the
  common prefix, preceded by one \<open>..\<close> for each remaining component of \<open>start\<close>.
\<close>

definition relpath :: "string \<Rightarrow> string \<Rightarrow> string" where
  "relpath p start =
     (let start_list = filter (\<lambda>x. x \<noteq> []) (split_on CHR ''/'' start);
          path_list = filter (\<lambda>x. x \<noteq> []) (split_on CHR ''/'' p);
          i = common_prefix_len start_list path_list;
          rel_list = replicate (length start_list - i) ''..'' @ drop i path_list
      in if rel_list = [] then ''.'' else join_str ''/'' rel_list)"

definition path_splitter :: "string \<Rightarrow> string list" where
  "path_splitter p = split_on CHR ''/'' (strip_char CHR ''/'' p)"

subsection \<open>Data frames\<close>

text \<open>
  The part of a pandas \<open>DataFrame\<close> the project index uses.  A column label is an integer
  (the depth of a path component) or a name.  A row lists its cells that hold a string, in
  column order; a label with no entry is a \<open>NaN\<close> cell.  The row index is not kept: every
  frame the index hands out went through \<open>reset_index()\<close>, so a row's label is its position.
\<close>

datatype label = Depth nat | Name string

type_synonym row = "(label \<times> string) list"

record dataframe =
  columns :: "label list"
  rows :: "row list"

definition empty_frame :: dataframe where
  "empty_frame = \<lparr>columns = [], rows = []\<rparr>"

definition cell :: "label \<Rightarrow> row \<Rightarrow> string option" where
  "cell c r = map_of r c"

definition depth_labels :: "row \<Rightarrow> nat list" where
  "depth_labels r = concat (map (\<lambda>(c, v). case c of Depth k \<Rightarrow> [k] | Name n \<Rightarrow> []) r)"

definition name_labels :: "row \<Rightarrow> string list" where
  "name_labels r = concat (map (\<lambda>(c, v). case c of Depth k \<Rightarrow> [] | Name n \<Rightarrow> [n]) r)"

text \<open>
  The frame that the successive \<open>df.append(pd.DataFrame([row]), ignore_index=True)\<close> build
  from the empty frame: the rows in the order they were appended, under the union of their
  labels (the integer labels in increasing order, then the names).
\<close>

definition frame_of_rows :: "row list \<Rightarrow> dataframe" where
  "frame_of_rows rs =
     \<lparr>columns = map Depth (sort (remdups (concat (map depth_labels rs))))
                 @ map Name (remdups (concat (map name_labels rs))),
      rows = rs\<rparr>"

text \<open>\<open>df.rename(columns=d)\<close> for a dictionary from integer labels to names.\<close>

fun rename_label :: "(nat \<times> string) list \<Rightarrow> label \<Rightarrow> label" where
  "rename_label d (Depth k) = (case map_of d k of Some n \<Rightarrow> Name n | None \<Rightarrow> Depth k)"
| "rename_label d (Name n) = Name n"

definition rename :: "(nat \<times> string) list \<Rightarrow> dataframe \<Rightarrow> dataframe" where
  "rename d df =
     \<lparr>columns = map (rename_label d) (columns df),
      rows = map (map (\<lambda>(c, v). (rename_label d c, v))) (rows df)\<rparr>"

text \<open>\<open>df[mask]\<close>: the rows the boolean mask keeps, in their order.\<close>

definition keep_rows :: "(row \<Rightarrow> bool) \<Rightarrow> dataframe \<Rightarrow> dataframe" where
  "keep_rows P df = df\<lparr>rows := filter P (rows df)\<rparr>"

text \<open>\<open>series.isin(vals)\<close> on one cell: a \<open>NaN\<close> cell is in no list of strings.\<close>

definition isin :: "string list \<Rightarrow> string option \<Rightarrow> bool" where
  "isin vals v = (case v of None \<Rightarrow> False | Some s \<Rightarrow> s \<in> set vals)"

text \<open>
  \<open>df[df.C.isin(vals)]\<close> (attribute access: a missing column is an \<open>AttributeError\<close>) and
  \<open>df[df['C'].isin(vals)]\<close> (item access: a \<open>KeyError\<close>).
\<close>

definition filter_isin :: "pyerr \<Rightarrow> label \<Rightarrow> string list \<Rightarrow> dataframe \<Rightarrow> pyerr + dataframe" where
  "filter_isin missing c vals df =
     (if c \<in> set (columns df) then Inr (keep_rows (\<lambda>r. isin vals (cell c r)) df)
      else Inl missing)"

text \<open>
  \<open>df[df.C.str.contains(pat)]\<close> and \<open>df[~df.C.str.contains(pat)]\<close>.  The pattern is a regular
  expression; \<open>re.search\<close> is a parameter \<open>rx\<close> of the model (\<open>rx pat s\<close>: the pattern
  is found somewhere in \<open>s\<close>).  On a \<open>NaN\<close> cell \<open>str.contains\<close> gives \<open>NaN\<close>: indexing with
  such a mask is a \<open>ValueError\<close>, negating it a \<open>TypeError\<close>.
\<close>

type_synonym regex = "string \<Rightarrow> string \<Rightarrow> bool"

definition filter_contains ::
  "regex \<Rightarrow> pyerr \<Rightarrow> bool \<Rightarrow> label \<Rightarrow> string \<Rightarrow> dataframe \<Rightarrow> pyerr + dataframe" where
  "filter_contains rx missing negated c pat df =
     (if c \<notin> set (columns df) then Inl missing
      else if list_ex (\<lambda>r. cell c r = None) (rows df)
        then Inl (if negated then TypeError else ValueError)
      else Inr (keep_rows (\<lambda>r. rx pat (the (cell c r)) \<noteq> negated) df))"

text \<open>\<open>df[cs]\<close> for a list of labels: those columns in that order.\<close>

definition select_columns :: "label list \<Rightarrow> dataframe \<Rightarrow> pyerr + dataframe" where
  "select_columns cs df =
     (if set cs \<subseteq> set (columns df)
      then Inr \<lparr>columns = cs,
                rows = map (\<lambda>r. concat (map (\<lambda>c. case cell c r of None \<Rightarrow> [] | Some v \<Rightarrow> [(c, v)]) cs))
                           (rows df)\<rparr>
      else Inl KeyError)"

text \<open>\<open>df.sort_values(c)\<close>: ascending in the column, the \<open>NaN\<close> cells last.\<close>

definition sort_values :: "label \<Rightarrow> dataframe \<Rightarrow> pyerr + dataframe" where
  "sort_values c df =
     (if c \<in> set (columns df)
      then Inr (df\<lparr>rows := sort_key (\<lambda>r. the (cell c r)) (filter (\<lambda>r. cell c r \<noteq> None) (rows df))
                            @ filter (\<lambda>r. cell c r = None) (rows df)\<rparr>)
      else Inl KeyError)"

text \<open>
  \<open>sorted(list(set(df.C.tolist())))\<close>: the distinct cells of a column in increasing order.
  A \<open>NaN\<close> cell is \<open>None\<close> here and comes first (Python 2 orders a float before every string);
  the \<open>NaN\<close> cells of one column count as one value.
\<close>

definition sorted_values :: "label \<Rightarrow> dataframe \<Rightarrow> pyerr + string option list" where
  "sorted_values c df =
     (if c \<in> set (columns df) then Inr (sort (remdups (map (cell c) (rows df))))
      else Inl AttributeError)"

section \<open>ProjectMethods: the scan\<close>

text \<open>
  \<open>os.walk(top)\<close> is a parameter of the model: for every directory it visits, the pair of
  its path \<open>f[0]\<close> and of the names of its files \<open>f[2]\<close>, in the order of the enumeration.
\<close>

type_synonym walker = "string \<Rightarrow> (string \<times> string list) list"

definition update_columns :: "int \<Rightarrow> bool \<Rightarrow> (nat \<times> string) list" where
  "update_columns idx single_session =
     (if idx = 0 then
        (if single_session
         then [(0, ''DataClass''), (1, ''Subject''), (3, ''Session''), (2, ''DataType'')]
         else [(0, ''DataClass''), (1, ''Subject''), (2, ''Session''), (3, ''DataType'')])
      else if idx = 1 then
        [(0, ''DataClass''), (1, ''Pipeline''), (2, ''Step''), (3, ''Subject''), (4, ''Session'')]
      else if idx = 2 then
        [(0, ''DataClass''), (1, ''Pipeline''), (2, ''Result''), (3, ''Subject''), (4, ''Session'')]
      else [(0, ''DataClass'')])"

definition reorder_columns :: "int \<Rightarrow> bool \<Rightarrow> string list option" where
  "reorder_columns idx single_session =
     (if idx = 0 then
        (if single_session then Some [''Subject'', ''DataType'', ''Filename'', ''Abspath'']
         else Some [''Subject'', ''Session'', ''DataType'', ''Filename'', ''Abspath''])
      else if idx = 1 then
        (if single_session then Some [''Pipeline'', ''Step'', ''Subject'', ''Filename'', ''Abspath'']
         else Some [''Pipeline'', ''Step'', ''Subject'', ''Session'', ''Filename'', ''Abspath''])
      else if idx = 2 then
        (if single_session then Some [''Pipeline'', ''Result'', ''Subject'', ''Filename'', ''Abspath'']
         else Some [''Pipeline'', ''Result'', ''Subject'', ''Session'', ''Filename'', ''Abspath''])
      else None)"

text \<open>
  The row \<open>parsing\<close> builds for one file: the components of the directory relative to the
  project path under the labels \<open>0, 1, \<dots>\<close>, then \<open>Filename\<close> and \<open>Abspath\<close>.
\<close>

definition row_of :: "string \<Rightarrow> string \<Rightarrow> string \<Rightarrow> row" where
  "row_of path dirpath filename =
     (let comps = path_splitter (relpath dirpath path)
      in zip (map Depth [0..<length comps]) comps
         @ [(Name ''Filename'', filename), (Name ''Abspath'', os_path_join dirpath filename)])"

definition walk_rows :: "string \<Rightarrow> (string \<times> string list) list \<Rightarrow> row list" where
  "walk_rows path entries = concat (map (\<lambda>(dirpath, files). map (row_of path dirpath) files) entries)"

text \<open>
  \<open>ProjectMethods.parsing(path, ds_type, idx)\<close>: the frame, the single-session flag and the
  empty-project flag.  \<open>parse_rows\<close> is the part after the loop over the walk.
\<close>

definition parse_rows :: "int \<Rightarrow> row list \<Rightarrow> pyerr + (dataframe \<times> bool \<times> bool)" where
  "parse_rows idx rs =
     (let df = frame_of_rows rs;
          single_session =
            (if idx = 0 then length (columns df) = 5 else length (columns df) = 6);
          df = rename (update_columns idx single_session) df;
          empty_prj = (Name ''Subject'' \<notin> set (columns df) \<or> rows df = [])
      in if empty_prj then Inr (empty_frame, single_session, empty_prj)
         else (case sort_values (Name ''Abspath'') df of
                 Inl e \<Rightarrow> Inl e
               | Inr sorted_df \<Rightarrow> Inr (sorted_df, single_session, empty_prj)))"

definition parsing ::
  "walker \<Rightarrow> string \<Rightarrow> string list \<Rightarrow> int \<Rightarrow> pyerr + (dataframe \<times> bool \<times> bool)" where
  "parsing walk path ds_type idx =
     (case py_index ds_type idx of
        Inl e \<Rightarrow> Inl e
      | Inr dc \<Rightarrow> parse_rows idx (walk_rows path (walk (os_path_join path dc))))"

text \<open>
  \<open>ProjectMethods.initial_filter(df, data_class, ext)\<close>; the project index passes the list
  of its three data-class directory names and its extension filter (\<open>None\<close> or a list).
\<close>

definition initial_filter ::
  "regex \<Rightarrow> dataframe \<Rightarrow> string list \<Rightarrow> string list option \<Rightarrow> pyerr + dataframe" where
  "initial_filter rx df data_class ext =
     (case (if data_class \<noteq> [] then filter_isin KeyError (Name ''DataClass'') data_class df
            else Inr df) of
        Inl e \<Rightarrow> Inl e
      | Inr df1 \<Rightarrow>
          (case ext of
             Some (e # es) \<Rightarrow>
               filter_contains rx KeyError False (Name ''Filename'') (join_str ''|'' (e # es)) df1
           | _ \<Rightarrow> Inr df1))"

text \<open>
  \<open>ProjectMethods.check_arguments(args, residuals, lists)\<close>.  The parameter \<open>lists\<close> of the source
  is \<open>vocabulary\<close> here: one of the derived sets; \<open>arg in lists\<close> is evaluated once
  for every argument.
\<close>

definition check_arguments ::
  "string list \<Rightarrow> string list \<Rightarrow> string option list \<Rightarrow> string list \<times> string list" where
  "check_arguments args residuals vocabulary =
     (let flt = filter (\<lambda>arg. Some arg \<in> set vocabulary) args
      in (flt, fold (\<lambda>comp res. if comp \<in> set res then remove1 comp res else res) flt residuals))"

section \<open>The heap: project objects and their filter lists\<close>

text \<open>
  A \<open>Project\<close> instance is an object on the heap; its attributes are rebound by assignment
  (\<open>self.x = v\<close> writes the attribute table of \<open>self\<close> and of no other object).  The one
  attribute value that is mutated in place is the six-slot list \<open>__filters\<close>
  (\<open>self.__filters[k] = v\<close>, \<open>self.__filters[k].extend(v)\<close>), so that list is a heap cell of
  its own and the attribute holds its address: \<open>copy.copy\<close> duplicates the attribute table
  and with it the address, not the list.  The lists inside the slots are built inside the
  method that stores them and are held by one slot only, so a slot holds its list as a value.
  The frames, the derived lists and the configuration lists are never mutated in place.

  An attribute that \<open>__init__\<close> does not assign is \<open>None\<close> (unset) in the record until a
  method assigns it; reading it unset is an \<open>AttributeError\<close>.
\<close>

type_synonym slot = "string list option"

type_synonym derived = "string option list option"

record project =
  single_session :: bool
  empty_project :: bool
  filters :: nat
  path :: string
  df :: dataframe
  img_ext :: "string list"
  ds_type :: "string list"
  dc_idx :: int
  ext_filter :: "string list option"
  ext_attr :: "string list option"
  subjects :: "derived option"
  sessions :: "derived option"
  dtypes :: "derived option"
  pipelines :: "derived option"
  steps :: "derived option"
  results :: "derived option"

record heap =
  objs :: "nat \<Rightarrow> project option"
  cells :: "nat \<Rightarrow> slot list option"
  nxt :: nat

text \<open>
  A method is an action on the state: it returns a value or raises, and leaves a state in
  both cases (what was assigned before a \<open>raise\<close> stays assigned).
\<close>

type_synonym ('s, 'a) act = "'s \<Rightarrow> (pyerr + 'a) \<times> 's"

definition ret :: "'a \<Rightarrow> ('s, 'a) act" where
  "ret x s = (Inr x, s)"

definition raise :: "pyerr \<Rightarrow> ('s, 'a) act" where
  "raise e s = (Inl e, s)"

definition then_do :: "('s, 'a) act \<Rightarrow> ('a \<Rightarrow> ('s, 'b) act) \<Rightarrow> ('s, 'b) act" where
  "then_do m f s = (case m s of (Inl e, s') \<Rightarrow> (Inl e, s') | (Inr x, s') \<Rightarrow> f x s')"

definition lift :: "pyerr + 'a \<Rightarrow> ('s, 'a) act" where
  "lift r s = (r, s)"

text \<open>\<open>try: m  except: raise e\<close> with a bare \<open>except\<close>: every exception of \<open>m\<close> becomes \<open>e\<close>.\<close>

definition except_all :: "pyerr \<Rightarrow> ('s, 'a) act \<Rightarrow> ('s, 'a) act" where
  "except_all e m s = (case m s of (Inl _, s') \<Rightarrow> (Inl e, s') | (Inr x, s') \<Rightarrow> (Inr x, s'))"

definition bind_err :: "pyerr + 'a \<Rightarrow> ('a \<Rightarrow> pyerr + 'b) \<Rightarrow> pyerr + 'b" where
  "bind_err r f = (case r of Inl e \<Rightarrow> Inl e | Inr x \<Rightarrow> f x)"

definition obj :: "heap \<Rightarrow> nat \<Rightarrow> project" where
  "obj h self = the (objs h self)"

definition getattr :: "nat \<Rightarrow> (project \<Rightarrow> 'a) \<Rightarrow> (heap, 'a) act" where
  "getattr self f h = (Inr (f (obj h self)), h)"

definition getprop :: "nat \<Rightarrow> (project \<Rightarrow> 'a option) \<Rightarrow> (heap, 'a) act" where
  "getprop self f h = (case f (obj h self) of None \<Rightarrow> (Inl AttributeError, h) | Some v \<Rightarrow> (Inr v, h))"

definition setattr :: "nat \<Rightarrow> (project \<Rightarrow> project) \<Rightarrow> (heap, unit) act" where
  "setattr self f h = (Inr (), h\<lparr>objs := (objs h)(self \<mapsto> f (obj h self))\<rparr>)"

text \<open>\<open>self.__filters = [None] * 6\<close>: a new list, and the attribute rebound to it.\<close>

definition new_filters :: "nat \<Rightarrow> (heap, unit) act" where
  "new_filters self h =
     (Inr (), h\<lparr>cells := (cells h)(nxt h \<mapsto> replicate 6 None),
                objs := (objs h)(self \<mapsto> (obj h self)\<lparr>filters := nxt h\<rparr>),
                nxt := Suc (nxt h)\<rparr>)"

definition slot_at :: "slot list \<Rightarrow> nat \<Rightarrow> pyerr + slot" where
  "slot_at fv k = (if k < length fv then Inr (fv ! k) else Inl IndexError)"

text \<open>\<open>self.__filters[k]\<close> and \<open>self.__filters[k] = v\<close>.\<close>

definition get_filter :: "nat \<Rightarrow> nat \<Rightarrow> (heap, slot) act" where
  "get_filter self k h = (slot_at (the (cells h (filters (obj h self)))) k, h)"

definition set_filter :: "nat \<Rightarrow> nat \<Rightarrow> slot \<Rightarrow> (heap, unit) act" where
  "set_filter self k v h =
     (let a = filters (obj h self); fv = the (cells h a)
      in if k < length fv then (Inr (), h\<lparr>cells := (cells h)(a \<mapsto> fv[k := v])\<rparr>)
         else (Inl IndexError, h))"

text \<open>Truth value of a derived set: \<open>None\<close> and the empty list are false.\<close>

definition truthy :: "'a list option \<Rightarrow> bool" where
  "truthy v = (case v of Some (x # xs) \<Rightarrow> True | _ \<Rightarrow> False)"

section \<open>Project: derived sets, scan, reset\<close>

text \<open>One assignment \<open>self.__x = sorted(list(set(self.df.C.tolist())))\<close> of \<open>__update\<close>.\<close>

definition derive :: "nat \<Rightarrow> label \<Rightarrow> (derived option \<Rightarrow> project \<Rightarrow> project) \<Rightarrow> (heap, unit) act" where
  "derive self c assign h =
     (case sorted_values c (df (obj h self)) of
        Inl e \<Rightarrow> (Inl e, h)
      | Inr vs \<Rightarrow> setattr self (assign (Some (Some vs))) h)"

text \<open>
  \<open>Project.__update\<close>.  The body of its \<open>try\<close> is \<open>update_body\<close>, for the values of
  \<open>single_session\<close> and \<open>__dc_idx\<close> that it reads.
\<close>

definition update_body :: "nat \<Rightarrow> bool \<Rightarrow> int \<Rightarrow> (heap, unit) act" where
  "update_body self single dc =
     then_do (derive self (Name ''Subject'') (\<lambda>v p. p\<lparr>subjects := v\<rparr>)) (\<lambda>_.
     then_do (if single
              then setattr self (\<lambda>p. p\<lparr>sessions := Some None\<rparr>)
              else derive self (Name ''Session'') (\<lambda>v p. p\<lparr>sessions := v\<rparr>)) (\<lambda>_.
     if dc = 0 then
       then_do (derive self (Name ''DataType'') (\<lambda>v p. p\<lparr>dtypes := v\<rparr>)) (\<lambda>_.
         setattr self (\<lambda>p. p\<lparr>pipelines := Some None, steps := Some None, results := Some None\<rparr>))
     else if dc = 1 then
       then_do (setattr self (\<lambda>p. p\<lparr>dtypes := Some None\<rparr>)) (\<lambda>_.
       then_do (derive self (Name ''Pipeline'') (\<lambda>v p. p\<lparr>pipelines := v\<rparr>)) (\<lambda>_.
       then_do (derive self (Name ''Step'') (\<lambda>v p. p\<lparr>steps := v\<rparr>)) (\<lambda>_.
         setattr self (\<lambda>p. p\<lparr>results := Some None\<rparr>))))
     else if dc = 2 then
       then_do (setattr self (\<lambda>p. p\<lparr>dtypes := Some None\<rparr>)) (\<lambda>_.
       then_do (derive self (Name ''Pipeline'') (\<lambda>v p. p\<lparr>pipelines := v\<rparr>)) (\<lambda>_.
       then_do (derive self (Name ''Result'') (\<lambda>v p. p\<lparr>results := v\<rparr>)) (\<lambda>_.
         setattr self (\<lambda>p. p\<lparr>steps := Some None\<rparr>))))
     else ret ()))"

definition update_attrs :: "nat \<Rightarrow> (heap, unit) act" where
  "update_attrs self =
     then_do (getattr self (\<lambda>p. p)) (\<lambda>p.
       if rows (df p) \<noteq> [] then
         except_all
           (raiseerror UpdateAttributesFailed ''Error occured during update project's attributes'')
           (update_body self (single_session p) (dc_idx p))
       else
         setattr self (\<lambda>p. p\<lparr>subjects := Some None, sessions := Some None, dtypes := Some None,
                              pipelines := Some None, steps := Some None, results := Some None\<rparr>))"

text \<open>
  \<open>Project.scan_prj\<close>.  The empty branch sets the flag and leaves the derived sets alone.
  \<open>scan_filter\<close> is the statement \<open>self.__df = ProjectMethods.initial_filter(\<dots>)\<close>,
  \<open>scan_reorder\<close> the statement \<open>if len(self.__df): self.__df = self.__df[reorder_columns(\<dots>)]\<close>.
\<close>

definition scan_filter :: "regex \<Rightarrow> nat \<Rightarrow> (heap, unit) act" where
  "scan_filter rx self =
     then_do (getattr self (\<lambda>p. p)) (\<lambda>p.
     then_do (lift (initial_filter rx (df p) (ds_type p) (ext_filter p))) (\<lambda>d.
       setattr self (\<lambda>p. p\<lparr>df := d\<rparr>)))"

definition scan_reorder :: "nat \<Rightarrow> (heap, unit) act" where
  "scan_reorder self =
     then_do (getattr self (\<lambda>p. p)) (\<lambda>p.
       if rows (df p) \<noteq> [] then
         (case reorder_columns (dc_idx p) (single_session p) of
            None \<Rightarrow> raise KeyError
          | Some cs \<Rightarrow>
              then_do (lift (select_columns (map Name cs) (df p))) (\<lambda>d.
                setattr self (\<lambda>p. p\<lparr>df := d\<rparr>)))
       else ret ())"

definition scan_prj :: "regex \<Rightarrow> walker \<Rightarrow> nat \<Rightarrow> (heap, unit) act" where
  "scan_prj rx walk self =
     then_do (getattr self (\<lambda>p. p)) (\<lambda>p.
     then_do (lift (parsing walk (path p) (ds_type p) (dc_idx p))) (\<lambda>t.
     then_do (setattr self (\<lambda>p. p\<lparr>df := fst t, single_session := fst (snd t)\<rparr>)) (\<lambda>_.
       if \<not> snd (snd t) then
         then_do (scan_filter rx self) (\<lambda>_.
         then_do (scan_reorder self) (\<lambda>_.
         then_do (update_attrs self) (\<lambda>_.
           setattr self (\<lambda>p. p\<lparr>empty_project := False\<rparr>))))
       else setattr self (\<lambda>p. p\<lparr>empty_project := True\<rparr>))))"

text \<open>
  \<open>Project.reset_filters(ext)\<close>.  The extension goes to the attribute \<open>_ext\<close>
  (\<open>ext_attr\<close>); the scan reads \<open>__ext_filter\<close> (\<open>ext_filter\<close>), which this method
  does not assign.
\<close>

definition reset_filters :: "regex \<Rightarrow> walker \<Rightarrow> nat \<Rightarrow> string list option \<Rightarrow> (heap, unit) act" where
  "reset_filters rx walk self ext =
     then_do (new_filters self) (\<lambda>_.
     then_do (setattr self (\<lambda>p. p\<lparr>ext_attr := Some (if truthy ext then the ext else img_ext p)\<rparr>)) (\<lambda>_.
     then_do (scan_prj rx walk self) (\<lambda>_.
       update_attrs self)))"

text \<open>
  The argument of the \<open>ext\<close> setter: a string, a list of strings, a false value that is
  neither (\<open>None\<close>, \<open>False\<close>, \<open>0\<close>), or any other value.
\<close>

datatype pyval = VStr string | VList "string list" | VFalsy | VOther

definition set_ext :: "nat \<Rightarrow> pyval \<Rightarrow> (heap, unit) act" where
  "set_ext self v =
     (case v of
        VStr s \<Rightarrow> setattr self (\<lambda>p. p\<lparr>ext_filter := Some [s]\<rparr>)
      | VList xs \<Rightarrow> setattr self (\<lambda>p. p\<lparr>ext_filter := Some xs\<rparr>)
      | VFalsy \<Rightarrow> setattr self (\<lambda>p. p\<lparr>ext_filter := None\<rparr>)
      | VOther \<Rightarrow> raise (raiseerror InputTypeError ''Please use correct input type.''))"

text \<open>The \<open>dataclass\<close> setter.\<close>

definition set_dataclass :: "regex \<Rightarrow> walker \<Rightarrow> nat \<Rightarrow> int \<Rightarrow> (heap, unit) act" where
  "set_dataclass rx walk self idx =
     (if idx \<in> {0, 1, 2} then
        then_do (setattr self (\<lambda>p. p\<lparr>dc_idx := idx\<rparr>)) (\<lambda>_.
        then_do (reset_filters rx walk self None) (\<lambda>_.
          update_attrs self))
      else raise (raiseerror InputDataclassError ''Wrong dataclass index.''))"

section \<open>Project: filters\<close>

text \<open>
  \<open>Project.applying_filters(df)\<close>, as a function of the six-slot list, the data-class index
  and the frame.  Slots 0 to 3 are tested for truth (a list with an element), slots 4 and 5
  against \<open>None\<close>.  \<open>filter_chain\<close> is the block under \<open>if len(df):\<close>.
\<close>

definition apply_slot ::
  "slot list \<Rightarrow> nat \<Rightarrow> (string list \<Rightarrow> dataframe \<Rightarrow> pyerr + dataframe) \<Rightarrow> dataframe
     \<Rightarrow> pyerr + dataframe" where
  "apply_slot fv k narrow d =
     bind_err (slot_at fv k) (\<lambda>s. if truthy s then narrow (the s) d else Inr d)"

definition filter_chain :: "regex \<Rightarrow> slot list \<Rightarrow> int \<Rightarrow> dataframe \<Rightarrow> pyerr + dataframe" where
  "filter_chain rx fv dc d =
     bind_err (apply_slot fv 0 (filter_isin AttributeError (Name ''Subject'')) d) (\<lambda>d.
     bind_err (apply_slot fv 1 (filter_isin AttributeError (Name ''Session'')) d) (\<lambda>d.
     bind_err (apply_slot fv 2
                 (if dc = 0 then filter_isin AttributeError (Name ''DataType'')
                  else filter_isin AttributeError (Name ''Pipeline'')) d) (\<lambda>d.
     bind_err (apply_slot fv 3
                 (if dc = 1 then filter_isin AttributeError (Name ''Step'')
                  else if dc = 2 then filter_isin AttributeError (Name ''Result'')
                  else (\<lambda>vals d. Inr d)) d) (\<lambda>d.
     bind_err (bind_err (slot_at fv 4) (\<lambda>s. case s of
                   None \<Rightarrow> Inr d
                 | Some file_tag \<Rightarrow>
                     filter_contains rx AttributeError False (Name ''Filename'')
                       (join_str ''&'' file_tag) d)) (\<lambda>d.
     bind_err (slot_at fv 5) (\<lambda>s. case s of
                   None \<Rightarrow> Inr d
                 | Some ignore \<Rightarrow>
                     filter_contains rx AttributeError True (Name ''Filename'')
                       (join_str ''&'' ignore) d))))))"

definition applying_filters :: "regex \<Rightarrow> slot list \<Rightarrow> int \<Rightarrow> dataframe \<Rightarrow> pyerr + dataframe" where
  "applying_filters rx fv dc d = (if rows d \<noteq> [] then filter_chain rx fv dc d else Inr d)"

text \<open>
  The pattern \<open>if self.__filters[k]: self.__filters[k].extend(flt)  else: self.__filters[k] = flt[:]\<close>
  that follows every call of \<open>check_arguments\<close>.
\<close>

definition merge_slot :: "nat \<Rightarrow> nat \<Rightarrow> string list \<Rightarrow> (heap, unit) act" where
  "merge_slot self k flt =
     then_do (get_filter self k) (\<lambda>s.
       if truthy s then set_filter self k (Some (the s @ flt)) else set_filter self k (Some flt))"

text \<open>
  One vocabulary level of \<open>set_filters\<close>: \<open>if self.V: (check_arguments; merge)  else:
  self.__filters[k] = None\<close>.  The matching always reads the full tuple \<open>args\<close>; only the
  residual list is threaded from level to level.
\<close>

definition match_level ::
  "nat \<Rightarrow> nat \<Rightarrow> string option list \<Rightarrow> string list \<Rightarrow> string list \<Rightarrow> (heap, string list) act" where
  "match_level self k vocabulary args residuals =
     (case check_arguments args residuals vocabulary of
        (flt, residuals') \<Rightarrow> then_do (merge_slot self k flt) (\<lambda>_. ret residuals'))"

definition match_or_clear ::
  "nat \<Rightarrow> nat \<Rightarrow> (project \<Rightarrow> derived option) \<Rightarrow> string list \<Rightarrow> string list
     \<Rightarrow> (heap, string list) act" where
  "match_or_clear self k prop args residuals =
     then_do (getprop self prop) (\<lambda>v.
       if truthy v then match_level self k (the v) args residuals
       else then_do (set_filter self k None) (\<lambda>_. ret residuals))"

text \<open>
  \<open>str(args)\<close> for a tuple of strings, as \<open>format\<close> puts it into the error message: the
  \<open>repr\<close> of every element, separated by a comma and a space, in parentheses, with a comma
  after the element of a one-element tuple.  The tokens are Python 2 \<open>str\<close> objects, so a
  character is a byte.  \<open>py_repr_str\<close> is \<open>repr\<close> of a \<open>str\<close>: the quote is the
  apostrophe, or the double quote when the string holds an apostrophe and no double quote;
  the quote and the backslash are escaped with a backslash, tab, newline and carriage return
  are written \<open>\t\<close>, \<open>\n\<close> and \<open>\r\<close>, every other byte below 32 or from 127 on is
  written \<open>\xhh\<close> with two lower-case hexadecimal digits.
\<close>

definition hex_digit :: "nat \<Rightarrow> char" where
  "hex_digit n = ''0123456789abcdef'' ! (n mod 16)"

definition py_repr_char :: "char \<Rightarrow> char \<Rightarrow> string" where
  "py_repr_char quote c =
     (if c = quote \<or> c = CHR 0x5C then [CHR 0x5C, c]
      else if c = CHR 0x09 then [CHR 0x5C, CHR ''t'']
      else if c = CHR 0x0A then [CHR 0x5C, CHR ''n'']
      else if c = CHR 0x0D then [CHR 0x5C, CHR ''r'']
      else if (of_char c :: nat) < 32 \<or> 127 \<le> (of_char c :: nat)
        then [CHR 0x5C, CHR ''x'',
              hex_digit ((of_char c :: nat) div 16), hex_digit ((of_char c :: nat) mod 16)]
      else [c])"

definition py_repr_str :: "string \<Rightarrow> string" where
  "py_repr_str s =
     (let quote = (if CHR 0x27 \<in> set s \<and> CHR 0x22 \<notin> set s then CHR 0x22 else CHR 0x27)
      in [quote] @ concat (map (py_repr_char quote) s) @ [quote])"

definition py_repr_tuple :: "string list \<Rightarrow> string" where
  "py_repr_tuple args =
     (case args of
        [] \<Rightarrow> ''()''
      | [a] \<Rightarrow> ''('' @ py_repr_str a @ '',)''
      | _ \<Rightarrow> ''('' @ join_str '', '' (map py_repr_str args) @ '')'')"

text \<open>
  The positional part of \<open>set_filters\<close> (the block under \<open>if args:\<close>): \<open>match_levels\<close>
  runs the vocabulary levels and returns the residual list, \<open>match_args\<close> adds the final
  test \<open>if len(residuals):\<close>.
\<close>

definition match_levels :: "nat \<Rightarrow> string list \<Rightarrow> (heap, string list) act" where
  "match_levels self args =
     then_do (getprop self subjects) (\<lambda>subj.
     then_do
       (if truthy subj then
          then_do (match_level self 0 (the subj) args args) (\<lambda>residuals.
          then_do (getattr self single_session) (\<lambda>single.
            if \<not> single then
              then_do (getprop self sessions) (\<lambda>sess.
                case sess of
                  None \<Rightarrow> raise TypeError
                | Some vocabulary \<Rightarrow> match_level self 1 vocabulary args residuals)
            else then_do (set_filter self 1 None) (\<lambda>_. ret residuals)))
        else
          then_do (set_filter self 0 None) (\<lambda>_.
          then_do (set_filter self 1 None) (\<lambda>_. ret args))) (\<lambda>residuals.
     then_do (getattr self dc_idx) (\<lambda>dc.
       if dc = 0 then
         then_do (match_or_clear self 2 dtypes args residuals) (\<lambda>residuals.
         then_do (set_filter self 3 None) (\<lambda>_. ret residuals))
       else if dc = 1 then
         then_do (match_or_clear self 2 pipelines args residuals) (\<lambda>residuals.
           match_or_clear self 3 steps args residuals)
       else
         then_do (match_or_clear self 2 pipelines args residuals) (\<lambda>residuals.
           match_or_clear self 3 results args residuals))))"

definition match_args :: "nat \<Rightarrow> string list \<Rightarrow> (heap, unit) act" where
  "match_args self args =
     then_do (match_levels self args) (\<lambda>residuals.
       if residuals \<noteq> [] then
         raise (raiseerror InputValueError (''Wrong filter input:'' @ py_repr_tuple args))
       else ret ())"

text \<open>
  \<open>Project.set_filters(*args, **kwargs)\<close>.  With a keyword argument the first statement is
  \<open>for key in kwargs.keys:\<close>; \<open>kwargs.keys\<close> is the bound method, not its result, and
  iterating over it raises \<open>TypeError\<close> before the body of the loop runs.  That body (the
  options \<open>ext\<close>, \<open>keep\<close>, \<open>file_tag\<close>, \<open>ignore\<close>) is therefore never executed and has no
  counterpart here.  Without keyword arguments the method resets first.
  \<open>apply_current_filters\<close> is the statement \<open>self.__df = self.applying_filters(self.__df)\<close>.
\<close>

definition apply_current_filters :: "regex \<Rightarrow> nat \<Rightarrow> (heap, unit) act" where
  "apply_current_filters rx self h =
     (case applying_filters rx (the (cells h (filters (obj h self)))) (dc_idx (obj h self))
             (df (obj h self)) of
        Inl e \<Rightarrow> (Inl e, h)
      | Inr d \<Rightarrow> setattr self (\<lambda>p. p\<lparr>df := d\<rparr>) h)"

definition set_filters ::
  "regex \<Rightarrow> walker \<Rightarrow> nat \<Rightarrow> string list \<Rightarrow> (string \<times> pyval) list \<Rightarrow> (heap, unit) act" where
  "set_filters rx walk self args kwargs =
     then_do (if kwargs \<noteq> [] then raise TypeError
              else then_do (getattr self ext_filter) (\<lambda>ext. reset_filters rx walk self ext)) (\<lambda>_.
     then_do (if args \<noteq> [] then match_args self args else ret ()) (\<lambda>_.
     then_do (apply_current_filters rx self) (\<lambda>_.
       update_attrs self)))"

section \<open>Project: construction, query views, row access\<close>

text \<open>
  \<open>Project.__init__\<close>.  The reference object (its class is not part of the sources at hand)
  gives the list of image extensions and the three data-class directory names; both are
  parameters.  \<open>mk_main_folder\<close> creates directories and no file, so it leaves what the walk
  finds unchanged.  Every exception of the first scan ends in \<open>raiseerror\<close>.
  \<open>new_project\<close> is the object with the attributes that \<open>__init__\<close> assigns before the scan.
\<close>

definition new_project :: "string \<Rightarrow> string list \<Rightarrow> string list \<Rightarrow> (heap, nat) act" where
  "new_project project_path imgext ref_ds h =
     (Inr (nxt h),
      h\<lparr>objs := (objs h)(nxt h \<mapsto>
             \<lparr>single_session = False, empty_project = False, filters = Suc (nxt h),
              path = project_path, df = empty_frame, img_ext = imgext, ds_type = ref_ds,
              dc_idx = 0, ext_filter = Some imgext, ext_attr = None,
              subjects = None, sessions = None, dtypes = None, pipelines = None,
              steps = None, results = None\<rparr>),
         cells := (cells h)(Suc (nxt h) \<mapsto> replicate 6 None),
         nxt := Suc (Suc (nxt h))\<rparr>)"

definition init_project ::
  "regex \<Rightarrow> walker \<Rightarrow> string \<Rightarrow> string list \<Rightarrow> string list \<Rightarrow> (heap, nat) act" where
  "init_project rx walk project_path imgext ref_ds =
     then_do (new_project project_path imgext ref_ds) (\<lambda>self.
     then_do (except_all (raiseerror ProjectScanFailure ''Error is occurred during a scanning.'')
                (scan_prj rx walk self)) (\<lambda>_.
       ret self))"

text \<open>
  \<open>Project.__call__(dc_id, *args, **kwargs)\<close>: \<open>copy.copy(self)\<close> is a new object with the
  attribute table of \<open>self\<close>; everything after it is called on the copy.
\<close>

definition copy_copy :: "nat \<Rightarrow> (heap, nat) act" where
  "copy_copy self h = (Inr (nxt h), h\<lparr>objs := (objs h)(nxt h \<mapsto> obj h self), nxt := Suc (nxt h)\<rparr>)"

definition call_project ::
  "regex \<Rightarrow> walker \<Rightarrow> nat \<Rightarrow> int \<Rightarrow> string list \<Rightarrow> (string \<times> pyval) list \<Rightarrow> (heap, nat) act" where
  "call_project rx walk self dc_id args kwargs =
     then_do (copy_copy self) (\<lambda>prj.
     then_do (getattr self dc_idx) (\<lambda>dc.
     then_do (if dc \<noteq> dc_id then set_dataclass rx walk prj dc_id else ret ()) (\<lambda>_.
     then_do (set_filters rx walk prj args kwargs) (\<lambda>_.
       ret prj))))"

text \<open>
  \<open>__getitem__\<close> (the result \<open>None\<close> is Python's \<open>None\<close>; \<open>df.loc[index]\<close> on the reset index
  is the row at that position, a \<open>KeyError\<close> for any other label), \<open>__iter__\<close> (what a loop over
  the index receives: the generator raises when it is first advanced) and \<open>__len__\<close>.
\<close>

definition getitem :: "nat \<Rightarrow> int \<Rightarrow> (heap, row option) act" where
  "getitem self index h =
     (if empty_project (obj h self) then (Inr None, h)
      else if 0 \<le> index \<and> index < int (length (rows (df (obj h self))))
        then (Inr (Some (rows (df (obj h self)) ! nat index)), h)
      else (Inl KeyError, h))"

definition iter_rows :: "nat \<Rightarrow> (heap, (nat \<times> row) list) act" where
  "iter_rows self h =
     (if empty_project (obj h self) then (Inl EmptyProject, h)
      else (Inr (enumerate 0 (rows (df (obj h self)))), h))"

definition len_project :: "nat \<Rightarrow> (heap, nat) act" where
  "len_project self h =
     (if empty_project (obj h self) then (Inr 0, h)
      else (Inr (length (rows (df (obj h self)))), h))"

section \<open>Process: step directories\<close>

text \<open>
  The directory tree as the step manager sees it: the directories (by path, in the order a
  listing enumerates them) and the files (directory and name).
\<close>

record fsys =
  fs_dirs :: "string list"
  fs_files :: "(string \<times> string) list"

fun starts_with :: "string \<Rightarrow> string \<Rightarrow> bool" where
  "starts_with [] t = True"
| "starts_with (x # xs) [] = False"
| "starts_with (x # xs) (y # ys) = (x = y \<and> starts_with xs ys)"

text \<open>\<open>s in t\<close> for two strings.\<close>

fun contains_str :: "string \<Rightarrow> string \<Rightarrow> bool" where
  "contains_str s [] = (s = [])"
| "contains_str s (y # ys) = (starts_with s (y # ys) \<or> contains_str s ys)"

text \<open>\<open>os.path.dirname\<close> and \<open>os.path.basename\<close> of \<open>posixpath\<close>.\<close>

definition basename :: "string \<Rightarrow> string" where
  "basename p = rev (takeWhile (\<lambda>x. x \<noteq> CHR ''/'') (rev p))"

definition dirname :: "string \<Rightarrow> string" where
  "dirname p =
     (let head = rev (dropWhile (\<lambda>x. x \<noteq> CHR ''/'') (rev p))
      in if head \<noteq> [] \<and> \<not> list_all (\<lambda>x. x = CHR ''/'') head
         then rev (dropWhile (\<lambda>x. x = CHR ''/'') (rev head)) else head)"

definition os_isdir :: "fsys \<Rightarrow> string \<Rightarrow> bool" where
  "os_isdir fs p = (p \<in> set (fs_dirs fs))"

definition os_listdir :: "fsys \<Rightarrow> string \<Rightarrow> pyerr + string list" where
  "os_listdir fs p =
     (if os_isdir fs p
      then Inr (map basename (filter (\<lambda>d. d \<noteq> p \<and> dirname d = p) (fs_dirs fs))
                @ map snd (filter (\<lambda>(d, n). d = p) (fs_files fs)))
      else Inl OSError)"

definition os_walk :: "fsys \<Rightarrow> walker" where
  "os_walk fs root =
     (if os_isdir fs root
      then map (\<lambda>d. (d, map snd (filter (\<lambda>(d', n). d' = d) (fs_files fs))))
               (filter (\<lambda>d. d = root \<or> starts_with (root @ ''/'') d) (fs_dirs fs))
      else [])"

text \<open>\<open>SystemMethods.mkdir(path)\<close>: \<open>os.mkdir\<close> with every exception swallowed.\<close>

definition sys_mkdir :: "string \<Rightarrow> fsys \<Rightarrow> fsys" where
  "sys_mkdir p fs =
     (if os_isdir fs p \<or> p \<in> set (map (\<lambda>(d, n). os_path_join d n) (fs_files fs))
         \<or> \<not> os_isdir fs (dirname p)
      then fs else fs\<lparr>fs_dirs := fs_dirs fs @ [p]\<rparr>)"

text \<open>\<open>str(n)\<close> for a natural number and \<open>s.zfill(w)\<close> for a string of digits.\<close>

fun str_nat :: "nat \<Rightarrow> string" where
  "str_nat n =
     (if n < 10 then [char_of (48 + n)] else str_nat (n div 10) @ [char_of (48 + n mod 10)])"

definition zfill :: "nat \<Rightarrow> string \<Rightarrow> string" where
  "zfill w s = replicate (w - length s) CHR ''0'' @ s"

text \<open>
  The instance attributes of a \<open>Process\<close>: \<open>_subjects\<close>, \<open>_sessions\<close>, \<open>_prjobj\<close> (the address
  of the project index) and \<open>_pipeline\<close>.  The class defines the properties \<open>subjects\<close> and
  \<open>sessions\<close> and no other attribute that is read below.
\<close>

record process =
  proc_subjects :: derived
  proc_sessions :: derived
  prjobj :: nat
  pipeline_attr :: string

text \<open>
  The object handed to \<open>get_step_name\<close> is a project index or a step manager.  The function
  reads its attributes \<open>path\<close>, \<open>ds_type\<close> and \<open>pipeline\<close>: a \<open>Project\<close> has \<open>path\<close> and
  \<open>ds_type\<close> (and \<open>pipelines\<close>, not \<open>pipeline\<close>); a \<open>Process\<close> has none of the three.
\<close>

datatype pyobject = ProjectObj nat | ProcessObj process

definition attr_path :: "pyobject \<Rightarrow> heap \<Rightarrow> pyerr + string" where
  "attr_path ob h = (case ob of ProjectObj a \<Rightarrow> Inr (path (obj h a)) | ProcessObj pr \<Rightarrow> Inl AttributeError)"

definition attr_ds_type :: "pyobject \<Rightarrow> heap \<Rightarrow> pyerr + string list" where
  "attr_ds_type ob h =
     (case ob of ProjectObj a \<Rightarrow> Inr (ds_type (obj h a)) | ProcessObj pr \<Rightarrow> Inl AttributeError)"

definition attr_pipeline :: "pyobject \<Rightarrow> heap \<Rightarrow> pyerr + string" where
  "attr_pipeline ob h = (case ob of ProjectObj a \<Rightarrow> Inl AttributeError | ProcessObj pr \<Rightarrow> Inl AttributeError)"

text \<open>
  The choice of the name in \<open>get_step_name\<close>, from the list of the existing step directories:
  the first one that contains the step name, else the next number.
\<close>

definition choose_step_name :: "string list \<Rightarrow> string \<Rightarrow> string" where
  "choose_step_name executed_steps step =
     (if executed_steps \<noteq> [] then
        (let overlapped = filter (\<lambda>old_step. contains_str step old_step) executed_steps
         in if overlapped \<noteq> [] then hd overlapped
            else join_str ''_'' [zfill 3 (str_nat (length executed_steps + 1)), step])
      else join_str ''_'' [zfill 3 (str_nat 1), step])"

text \<open>
  \<open>ProjectMethods.get_step_name(prjobj, step)\<close>; the walk over a reused directory only
  prints a notice.
\<close>

definition get_step_name :: "pyobject \<Rightarrow> string \<Rightarrow> (fsys \<times> heap, string) act" where
  "get_step_name ob step = (\<lambda>(fs, h).
     (bind_err (attr_path ob h) (\<lambda>p.
      bind_err (attr_ds_type ob h) (\<lambda>ds.
      bind_err (py_index ds 1) (\<lambda>processing.
      bind_err (attr_pipeline ob h) (\<lambda>pl.
        (let pipeline_path = os_path_join (os_path_join p processing) pl
         in bind_err (os_listdir fs pipeline_path) (\<lambda>names.
              Inr (choose_step_name
                     (filter (\<lambda>f. os_isdir fs (os_path_join pipeline_path f)) names) step))))))),
      (fs, h)))"

text \<open>\<open>Process.init_step(stepname)\<close>: the step manager passes itself to \<open>get_step_name\<close>.\<close>

definition init_step :: "regex \<Rightarrow> process \<Rightarrow> string \<Rightarrow> (fsys \<times> heap, string) act" where
  "init_step rx self stepname =
     (if pipeline_attr self \<noteq> [] then
        then_do (get_step_name (ProcessObj self) stepname) (\<lambda>name. (\<lambda>(fs, h).
          (case py_index (ds_type (obj h (prjobj self))) 1 of
             Inl e \<Rightarrow> (Inl e, (fs, h))
           | Inr processing \<Rightarrow>
               (let steppath =
                      os_path_join (os_path_join (os_path_join (path (obj h (prjobj self))) processing)
                                      (pipeline_attr self)) name;
                    fs' = sys_mkdir steppath fs
                in case scan_prj rx (os_walk fs') (prjobj self) h of
                     (Inl e, h') \<Rightarrow> (Inl e, (fs', h'))
                   | (Inr u, h') \<Rightarrow> (Inr steppath, (fs', h'))))))
      else raise PipelineNotSet)"

section \<open>Example states\<close>

text \<open>
  A project \<open>/p\<close> with two subjects \<open>A\<close> and \<open>B\<close>, one data type \<open>func\<close> and a single
  session, as the walk over \<open>/p/Data\<close> enumerates it; the same tree enumerated in another
  order; and a tree without any file.  In the examples the regular-expression search is
  \<open>contains_str\<close>, the search for a pattern without special characters.
\<close>

definition ds_niral :: "string list" where
  "ds_niral = [''Data'', ''Processing'', ''Results'']"

definition walk_ab :: walker where
  "walk_ab root =
     (if root = ''/p/Data'' then
        [(''/p/Data'', []), (''/p/Data/B'', []), (''/p/Data/B/func'', [''b.nii'']),
         (''/p/Data/A'', []), (''/p/Data/A/func'', [''a.nii'', ''a.txt''])]
      else [])"


definition walk_none :: walker where
  "walk_none root = (if root = ''/p/Data'' then [(''/p/Data'', [])] else [])"

definition heap0 :: heap where
  "heap0 = \<lparr>objs = (\<lambda>a. None), cells = (\<lambda>a. None), nxt = 0\<rparr>"

text \<open>
  The project index that \<open>Project('/p')\<close> builds over that tree with the image extension
  \<open>nii\<close> (lemma \<open>init_project_ab\<close> below), written out, and the heap that holds it at
  address 0 with its filter list at address 1.
\<close>

definition frame_ab :: dataframe where
  "frame_ab =
     \<lparr>columns = [Name ''Subject'', Name ''DataType'', Name ''Filename'', Name ''Abspath''],
      rows = [[(Name ''Subject'', ''A''), (Name ''DataType'', ''func''),
               (Name ''Filename'', ''a.nii''), (Name ''Abspath'', ''/p/Data/A/func/a.nii'')],
              [(Name ''Subject'', ''B''), (Name ''DataType'', ''func''),
               (Name ''Filename'', ''b.nii''), (Name ''Abspath'', ''/p/Data/B/func/b.nii'')]]\<rparr>"

definition project_ab :: project where
  "project_ab =
     \<lparr>single_session = True, empty_project = False, filters = 1, path = ''/p'',
      df = frame_ab, img_ext = [''nii''], ds_type = ds_niral, dc_idx = 0,
      ext_filter = Some [''nii''], ext_attr = None,
      subjects = Some (Some [Some ''A'', Some ''B'']), sessions = Some None,
      dtypes = Some (Some [Some ''func'']), pipelines = Some None,
      steps = Some None, results = Some None\<rparr>"

definition heap_ab :: heap where
  "heap_ab = \<lparr>objs = (\<lambda>a. if a = 0 then Some project_ab else None),
               cells = (\<lambda>a. if a = 1 then Some (replicate 6 None) else None),
               nxt = 2\<rparr>"

text \<open>
  The project index that \<open>Project('/p')\<close> builds over the tree without files (lemma
  \<open>init_project_none\<close> below): the first scan takes the empty branch, so the derived sets
  are never assigned.
\<close>

definition project_none :: project where
  "project_none =
     \<lparr>single_session = False, empty_project = True, filters = 1, path = ''/p'',
      df = empty_frame, img_ext = [''nii''], ds_type = ds_niral, dc_idx = 0,
      ext_filter = Some [''nii''], ext_attr = None,
      subjects = None, sessions = None, dtypes = None, pipelines = None,
      steps = None, results = None\<rparr>"

definition heap_none :: heap where
  "heap_none = \<lparr>objs = (\<lambda>a. if a = 0 then Some project_none else None),
                 cells = (\<lambda>a. if a = 1 then Some (replicate 6 None) else None),
                 nxt = 2\<rparr>"

definition proc_P :: process where
  "proc_P = \<lparr>proc_subjects = None, proc_sessions = None, prjobj = 0, pipeline_attr = ''P''\<rparr>"

definition fs_P :: fsys where
  "fs_P = \<lparr>fs_dirs = [''/p'', ''/p/Data'', ''/p/Processing'', ''/p/Results'', ''/p/Processing/P''],
           fs_files = []\<rparr>"

section \<open>Predicates used in the proofs\<close>

text \<open>A state predicate that an action keeps, whether it returns or raises.\<close>

definition holds_after :: "('s \<Rightarrow> bool) \<Rightarrow> ('s, 'a) act \<Rightarrow> bool" where
  "holds_after P m = (\<forall>s. P s \<longrightarrow> P (snd (m s)))"

definition ext_is :: "nat \<Rightarrow> string list option \<Rightarrow> heap \<Rightarrow> bool" where
  "ext_is self v h = (ext_filter (obj h self) = v)"

text \<open>
  A narrowing step: where it returns it keeps the rows that satisfy \<open>P\<close>, and it then
  returns likewise on every frame with the same columns and rows among those of the first.
\<close>

definition narrows_by :: "(row \<Rightarrow> bool) \<Rightarrow> (dataframe \<Rightarrow> pyerr + dataframe) \<Rightarrow> bool" where
  "narrows_by P n =
     (\<forall>d d'. n d = Inr d' \<longrightarrow>
        d' = keep_rows P d
        \<and> (\<forall>d2. columns d2 = columns d \<and> set (rows d2) \<subseteq> set (rows d) \<longrightarrow> n d2 = Inr (keep_rows P d2)))"

definition frame_a :: dataframe where
  "frame_a =
     \<lparr>columns = [Name ''Subject'', Name ''DataType'', Name ''Filename'', Name ''Abspath''],
      rows = [[(Name ''Subject'', ''A''), (Name ''DataType'', ''func''),
               (Name ''Filename'', ''a.nii''), (Name ''Abspath'', ''/p/Data/A/func/a.nii'')]]\<rparr>"




text \<open>
  The state in which the positional part of \<open>set_filters\<close> starts, after the reset:
  \<open>wired\<close> (the object exists, its filter list is the cell \<open>a\<close> holding six times
  \<open>None\<close>, its data-class index is \<open>dc\<close>) and \<open>derived_ok\<close> (the six derived sets are
  assigned, and the sessions are a list when they will be consulted).  \<open>with_slots\<close> is
  the heap with the filter list at \<open>a\<close> replaced.

  The vocabularies that the positional part consults, level by level (\<open>None\<close>: the level
  is skipped and its slot cleared): subjects; sessions, when there are subjects and the
  layout is multi-session; data types for the first data class and pipelines for the others;
  steps for the second data class and results for the third.  \<open>matched\<close> is what a level
  puts into its slot, \<open>thread\<close> what it does to the residual list, \<open>residuals_of\<close> the
  residual list after the last level, \<open>in_vocabulary\<close> the test that a token is in one of
  the vocabularies consulted.
\<close>

definition wired :: "nat \<Rightarrow> nat \<Rightarrow> int \<Rightarrow> heap \<Rightarrow> bool" where
  "wired self a dc h =
     (objs h self \<noteq> None \<and> filters (obj h self) = a \<and> dc_idx (obj h self) = dc
      \<and> cells h a = Some (replicate 6 None))"

definition derived_ok :: "project \<Rightarrow> bool" where
  "derived_ok p =
     (subjects p \<noteq> None \<and> sessions p \<noteq> None \<and> dtypes p \<noteq> None \<and> pipelines p \<noteq> None
      \<and> steps p \<noteq> None \<and> results p \<noteq> None
      \<and> (truthy (the (subjects p)) \<and> \<not> single_session p \<longrightarrow> the (sessions p) \<noteq> None))"

definition with_slots :: "heap \<Rightarrow> nat \<Rightarrow> slot list \<Rightarrow> heap" where
  "with_slots h a sl = h\<lparr>cells := (cells h)(a \<mapsto> sl)\<rparr>"

definition levels :: "project \<Rightarrow> derived list" where
  "levels p =
     [if truthy (the (subjects p)) then the (subjects p) else None,
      if truthy (the (subjects p)) \<and> \<not> single_session p then the (sessions p) else None,
      if dc_idx p = 0 then (if truthy (the (dtypes p)) then the (dtypes p) else None)
      else (if truthy (the (pipelines p)) then the (pipelines p) else None),
      if dc_idx p = 0 then None
      else if dc_idx p = 1 then (if truthy (the (steps p)) then the (steps p) else None)
      else (if truthy (the (results p)) then the (results p) else None)]"

definition matched :: "derived \<Rightarrow> string list \<Rightarrow> slot" where
  "matched lv args = map_option (\<lambda>vocabulary. filter (\<lambda>a. Some a \<in> set vocabulary) args) lv"

definition thread :: "string list \<Rightarrow> derived \<Rightarrow> string list \<Rightarrow> string list" where
  "thread args lv res = (case lv of None \<Rightarrow> res | Some vocabulary \<Rightarrow> snd (check_arguments args res vocabulary))"

definition residuals_of :: "project \<Rightarrow> string list \<Rightarrow> string list" where
  "residuals_of p args = fold (thread args) (levels p) args"

definition in_vocabulary :: "project \<Rightarrow> string \<Rightarrow> bool" where
  "in_vocabulary p t =
     list_ex (\<lambda>lv. case lv of None \<Rightarrow> False | Some vocabulary \<Rightarrow> Some t \<in> set vocabulary) (levels p)"

text \<open>
  The columns of a table that a scan left: a table with rows has the canonical columns of
  its data class and session mode.
\<close>

definition columns_ok :: "project \<Rightarrow> bool" where
  "columns_ok p =
     (rows (df p) = []
      \<or> (\<exists>cs. reorder_columns (dc_idx p) (single_session p) = Some cs
                \<and> columns (df p) = map Name cs))"

text \<open>
  A project whose one subject is called \<open>func\<close>, like its data type: the walk, and the
  index that \<open>Project('/p')\<close> builds over it (lemma \<open>init_project_ff\<close> below).
\<close>

definition walk_ff :: walker where
  "walk_ff root =
     (if root = ''/p/Data'' then
        [(''/p/Data'', []), (''/p/Data/func'', []), (''/p/Data/func/func'', [''x.nii''])]
      else [])"

definition project_ff :: project where
  "project_ff =
     \<lparr>single_session = True, empty_project = False, filters = 1, path = ''/p'',
      df = \<lparr>columns = [Name ''Subject'', Name ''DataType'', Name ''Filename'', Name ''Abspath''],
             rows = [[(Name ''Subject'', ''func''), (Name ''DataType'', ''func''),
                      (Name ''Filename'', ''x.nii''),
                      (Name ''Abspath'', ''/p/Data/func/func/x.nii'')]]\<rparr>,
      img_ext = [''nii''], ds_type = ds_niral, dc_idx = 0,
      ext_filter = Some [''nii''], ext_attr = None,
      subjects = Some (Some [Some ''func'']), sessions = Some None,
      dtypes = Some (Some [Some ''func'']), pipelines = Some None,
      steps = Some None, results = Some None\<rparr>"

definition heap_ff :: heap where
  "heap_ff = \<lparr>objs = (\<lambda>a. if a = 0 then Some project_ff else None),
               cells = (\<lambda>a. if a = 1 then Some (replicate 6 None) else None),
               nxt = 2\<rparr>"








section \<open>Basic facts about actions\<close>

lemma then_do_raise [simp]: "then_do (raise e) f s = (Inl e, s)"
  by (simp add: then_do_def raise_def)

lemma then_do_ret [simp]: "then_do (ret x) f s = f x s"
  by (simp add: then_do_def ret_def)

lemma then_do_Inl: "m s = (Inl e, s') \<Longrightarrow> then_do m f s = (Inl e, s')"
  by (simp add: then_do_def)

lemma then_do_Inr: "m s = (Inr x, s') \<Longrightarrow> then_do m f s = f x s'"
  by (simp add: then_do_def)

lemma holds_afterD: "holds_after P m \<Longrightarrow> P s \<Longrightarrow> P (snd (m s))"
  by (simp add: holds_after_def)

lemma holds_after_then_do:
  "holds_after P m \<Longrightarrow> (\<And>x. holds_after P (f x)) \<Longrightarrow> holds_after P (then_do m f)"
  unfolding holds_after_def then_do_def
  by (auto split: prod.splits sum.splits)

lemma holds_after_ret: "holds_after P (ret x)"
  by (simp add: holds_after_def ret_def)

lemma holds_after_raise: "holds_after P (raise e)"
  by (simp add: holds_after_def raise_def)

lemma holds_after_except_all: "holds_after P m \<Longrightarrow> holds_after P (except_all e m)"
  unfolding holds_after_def except_all_def
  by (auto split: prod.splits sum.splits)

lemma holds_after_if:
  "holds_after P m \<Longrightarrow> holds_after P n \<Longrightarrow> holds_after P (if b then m else n)"
  by simp

section \<open>Keyword options of set_filters (C2)\<close>

text \<open>
  Claim C2.  The claim: \<open>set_filters(file_tag=["mask"])\<close> narrows the table to the file
  names that contain \<open>mask\<close>, \<open>ignore=["mask"]\<close> to those that do not, and the keyword calls
  complete normally.  The code: every call of \<open>set_filters\<close> with at least one keyword
  argument raises \<open>TypeError\<close> at \<open>for key in kwargs.keys:\<close>, before any filter is stored
  and before the table is touched; the state is the one before the call.
\<close>

theorem set_filters_keyword_raises:
  "set_filters rx walk self args ((key, v) # kwargs) h = (Inl TypeError, h)"
  by (simp add: set_filters_def)

theorem set_filters_keyword_raises_witness:
  "set_filters contains_str walk_ab 0 [] [(''file_tag'', VList [''mask''])] heap_ab
   = (Inl TypeError, heap_ab)"
  by (rule set_filters_keyword_raises)

section \<open>Step directories (C4)\<close>

text \<open>
  The naming rule of the step manager, on its own: with no step directory the name is
  \<open>001_Motion\<close>, and with that directory present the same name is chosen again.
\<close>

lemma choose_step_name_first: "choose_step_name [] ''Motion'' = ''001_Motion''"
  by code_simp

lemma choose_step_name_reuse: "choose_step_name [''001_Motion''] ''Motion'' = ''001_Motion''"
  by code_simp

text \<open>
  Claim C4.  The claim: with no step directory, \<open>init_step("Motion")\<close> creates and returns
  \<open>001_Motion\<close>, and a second call returns the same path.  The code: \<open>init_step\<close> hands the
  step manager itself to \<open>get_step_name\<close>, which reads \<open>prjobj.path\<close>; a \<open>Process\<close> has no
  attribute \<open>path\<close>, so every call with a pipeline set raises \<open>AttributeError\<close>, no directory
  is created and the project index is not rescanned.
\<close>

theorem init_step_raises:
  "pipeline_attr pr \<noteq> [] \<Longrightarrow> init_step rx pr stepname (fs, h) = (Inl AttributeError, (fs, h))"
  by (simp add: init_step_def get_step_name_def attr_path_def bind_err_def then_do_def)

theorem init_step_raises_witness:
  "pipeline_attr proc_P \<noteq> []
   \<and> init_step contains_str proc_P ''Motion'' (fs_P, heap0) = (Inl AttributeError, (fs_P, heap0))"
proof -
  have p: "pipeline_attr proc_P \<noteq> []" by (simp add: proc_P_def)
  show ?thesis using p init_step_raises [OF p, of contains_str "''Motion''" fs_P heap0] by simp
qed

section \<open>The example project is what the constructor builds\<close>

lemma init_project_ab:
  "fst (init_project contains_str walk_ab ''/p'' [''nii''] ds_niral heap0) = Inr 0
   \<and> obj (snd (init_project contains_str walk_ab ''/p'' [''nii''] ds_niral heap0)) 0 = project_ab"
  by code_simp

lemma init_project_none:
  "fst (init_project contains_str walk_none ''/p'' [''nii''] ds_niral heap0) = Inr 0
   \<and> obj (snd (init_project contains_str walk_none ''/p'' [''nii''] ds_niral heap0)) 0 = project_none"
  by code_simp

section \<open>The extension filter across a reset (C7)\<close>

lemma holds_after_getattr: "holds_after P (getattr self f)"
  by (simp add: holds_after_def getattr_def)

lemma holds_after_getprop: "holds_after P (getprop self f)"
  by (simp add: holds_after_def getprop_def split: option.splits)

lemma holds_after_lift: "holds_after P (lift r)"
  by (simp add: holds_after_def lift_def)

lemma holds_after_case_option:
  "holds_after P m \<Longrightarrow> (\<And>x. holds_after P (f x)) \<Longrightarrow> holds_after P (case v of None \<Rightarrow> m | Some x \<Rightarrow> f x)"
  by (cases v) simp_all

lemmas holds_after_intros =
  holds_after_then_do holds_after_if holds_after_ret holds_after_raise holds_after_except_all
  holds_after_getattr holds_after_getprop holds_after_lift holds_after_case_option

lemma setattr_ext:
  "(\<And>p. ext_filter (f p) = ext_filter p) \<Longrightarrow> holds_after (ext_is self v) (setattr self f)"
  by (simp add: holds_after_def ext_is_def setattr_def obj_def)

lemma derive_ext:
  "(\<And>p x. ext_filter (f x p) = ext_filter p) \<Longrightarrow> holds_after (ext_is self v) (derive self c f)"
  by (auto simp add: holds_after_def ext_is_def derive_def setattr_def obj_def split: sum.splits)

lemma update_attrs_ext: "holds_after (ext_is self v) (update_attrs self)"
  unfolding update_attrs_def update_body_def
  by (intro holds_after_intros setattr_ext derive_ext) simp_all

lemma new_filters_ext: "holds_after (ext_is self v) (new_filters self)"
  by (simp add: holds_after_def ext_is_def new_filters_def obj_def)

lemma scan_prj_ext: "holds_after (ext_is self v) (scan_prj rx walk self)"
  unfolding scan_prj_def scan_filter_def scan_reorder_def
  by (intro holds_after_intros setattr_ext update_attrs_ext) simp_all

lemma reset_filters_ext: "holds_after (ext_is self v) (reset_filters rx walk self ext)"
  unfolding reset_filters_def
  by (intro holds_after_intros new_filters_ext setattr_ext scan_prj_ext update_attrs_ext) simp

text \<open>
  Claim C7.  The claim: \<open>reset_filters()\<close> clears the six slots and restores the extension
  filter that the following scan uses to the image-format default, also after the \<open>ext\<close>
  setter changed it.  The code: \<open>reset_filters\<close> assigns the default to the attribute
  \<open>_ext\<close>, which nothing reads; the scan filters by \<open>__ext_filter\<close>, and that attribute is
  the same after the reset as before it, whatever the argument and the tree.  After
  \<open>p.ext = 'txt'\<close> on the example project (default \<open>nii\<close>) and \<open>p.reset_filters()\<close> the
  filter is still \<open>txt\<close>, and the table holds the file \<open>a.txt\<close> only.
\<close>

theorem reset_filters_keeps_ext_filter:
  "ext_filter (obj (snd (reset_filters rx walk self ext h)) self) = ext_filter (obj h self)"
  using holds_afterD [OF reset_filters_ext, of self "ext_filter (obj h self)" h rx walk ext]
  by (simp add: ext_is_def)

theorem reset_filters_keeps_ext_filter_witness:
  "ext_filter (obj (snd (reset_filters contains_str walk_ab 0 None
       (snd (set_ext 0 (VStr ''txt'') heap_ab)))) 0) = Some [''txt'']
   \<and> img_ext (obj (snd (set_ext 0 (VStr ''txt'') heap_ab)) 0) = [''nii'']"
  using reset_filters_keeps_ext_filter
    [of contains_str walk_ab 0 None "snd (set_ext 0 (VStr ''txt'') heap_ab)"]
  by (simp add: set_ext_def setattr_def obj_def heap_ab_def project_ab_def)

lemma reset_after_set_ext_table:
  "map (cell (Name ''Filename''))
     (rows (df (obj (snd (reset_filters contains_str walk_ab 0 None
                            (snd (set_ext 0 (VStr ''txt'') heap_ab)))) 0)))
   = [Some ''a.txt'']"
  by code_simp

section \<open>Derived sets after a scan that finds the project empty (C5)\<close>

lemma parsing_empty_frame:
  "parsing walk p ds i = Inr (fr, single, True) \<Longrightarrow> fr = empty_frame"
  by (auto simp add: parsing_def parse_rows_def Let_def split: sum.splits if_splits)

lemma update_attrs_df:
  "df (obj (snd (update_attrs self h)) self) = df (obj h self)
   \<and> empty_project (obj (snd (update_attrs self h)) self) = empty_project (obj h self)"
  by (simp add: update_attrs_def update_body_def then_do_def getattr_def setattr_def derive_def
        except_all_def ret_def obj_def split: sum.splits prod.splits)

lemma scan_prj_empty:
  assumes "parsing walk (path (obj h self)) (ds_type (obj h self)) (dc_idx (obj h self))
             = Inr (fr, single, True)"
  shows "scan_prj rx walk self h =
           (Inr (), h\<lparr>objs := (objs h)(self \<mapsto>
              (obj h self)\<lparr>df := empty_frame, single_session := single, empty_project := True\<rparr>)\<rparr>)"
  using assms parsing_empty_frame [OF assms]
  by (simp add: scan_prj_def then_do_def getattr_def lift_def setattr_def obj_def)

lemma scan_prj_flag:
  assumes "scan_prj rx walk self h = (Inr (), h')" "empty_project (obj h' self)"
  shows "rows (df (obj h' self)) = []"
proof (cases "parsing walk (path (obj h self)) (ds_type (obj h self)) (dc_idx (obj h self))")
  case (Inl e)
  then show ?thesis using assms by (simp add: scan_prj_def then_do_def getattr_def lift_def)
next
  case (Inr t)
  obtain fr single e where t: "t = (fr, single, e)" by (cases t)
  show ?thesis
  proof (cases e)
    case True
    then show ?thesis using scan_prj_empty [of walk h self fr single rx] Inr t assms
      by (auto simp add: obj_def empty_frame_def)
  next
    case False
    then have "\<not> empty_project (obj h' self)" using Inr t assms(1)
      by (auto simp add: scan_prj_def then_do_def getattr_def lift_def setattr_def obj_def
            split: sum.splits prod.splits)
    then show ?thesis using assms(2) by simp
  qed
qed

lemma parsing_walk_none: "parsing walk_none ''/p'' ds_niral 0 = Inr (empty_frame, False, True)"
  by code_simp

text \<open>
  Claim C5.  The claim: after every operation that rebuilds the table the derived sets are
  recomputed from it before the operation returns, in particular when the rebuild finds the
  project empty.  The code: when \<open>parsing\<close> reports an empty project, \<open>scan_prj\<close> replaces
  the table by the empty frame, sets the flag and returns without calling \<open>__update\<close>: all
  six derived sets are what they were before the scan.  (\<open>reset_filters\<close> and the
  \<open>dataclass\<close> setter call \<open>__update\<close> themselves after the scan; \<open>init_step\<close>,
  \<open>initiate_pipeline\<close>, \<open>final_step\<close> and \<open>__init__\<close> call \<open>scan_prj\<close> alone.)
\<close>

theorem scan_prj_empty_keeps_derived_sets:
  assumes "parsing walk (path (obj h self)) (ds_type (obj h self)) (dc_idx (obj h self))
             = Inr (fr, single, True)"
  shows "fst (scan_prj rx walk self h) = Inr ()
         \<and> df (obj (snd (scan_prj rx walk self h)) self) = empty_frame
         \<and> empty_project (obj (snd (scan_prj rx walk self h)) self)
         \<and> subjects (obj (snd (scan_prj rx walk self h)) self) = subjects (obj h self)
         \<and> sessions (obj (snd (scan_prj rx walk self h)) self) = sessions (obj h self)
         \<and> dtypes (obj (snd (scan_prj rx walk self h)) self) = dtypes (obj h self)
         \<and> pipelines (obj (snd (scan_prj rx walk self h)) self) = pipelines (obj h self)
         \<and> steps (obj (snd (scan_prj rx walk self h)) self) = steps (obj h self)
         \<and> results (obj (snd (scan_prj rx walk self h)) self) = results (obj h self)"
  by (simp add: scan_prj_empty [OF assms] obj_def)

theorem scan_prj_empty_keeps_derived_sets_witness:
  "parsing walk_none (path (obj heap_ab 0)) (ds_type (obj heap_ab 0)) (dc_idx (obj heap_ab 0))
     = Inr (empty_frame, False, True)
   \<and> df (obj (snd (scan_prj contains_str walk_none 0 heap_ab)) 0) = empty_frame
   \<and> subjects (obj (snd (scan_prj contains_str walk_none 0 heap_ab)) 0)
       = Some (Some [Some ''A'', Some ''B''])"
proof -
  have p: "parsing walk_none (path (obj heap_ab 0)) (ds_type (obj heap_ab 0)) (dc_idx (obj heap_ab 0))
             = Inr (empty_frame, False, True)"
    using parsing_walk_none by (simp add: heap_ab_def project_ab_def obj_def)
  have "subjects (obj heap_ab 0) = Some (Some [Some ''A'', Some ''B''])"
    by (simp add: heap_ab_def project_ab_def obj_def)
  with p scan_prj_empty_keeps_derived_sets [OF p, of contains_str] show ?thesis by simp
qed

section \<open>Access to an empty project (C6)\<close>

lemma reset_filters_empty_subjects:
  assumes "fst (reset_filters rx walk self ext h) = Inr ()"
    and "empty_project (obj (snd (reset_filters rx walk self ext h)) self)"
  shows "subjects (obj (snd (reset_filters rx walk self ext h)) self) = Some None"
proof -
  define h1 where "h1 = snd (then_do (new_filters self) (\<lambda>_.
      setattr self (\<lambda>p. p\<lparr>ext_attr := Some (if truthy ext then the ext else img_ext p)\<rparr>)) h)"
  have r: "reset_filters rx walk self ext h
             = then_do (scan_prj rx walk self) (\<lambda>_. update_attrs self) h1"
    by (simp add: reset_filters_def h1_def then_do_def new_filters_def setattr_def)
  obtain h2 where s: "scan_prj rx walk self h1 = (Inr (), h2)"
    using assms(1) unfolding r then_do_def
    by (cases "scan_prj rx walk self h1") (auto split: sum.splits)
  have u: "reset_filters rx walk self ext h = update_attrs self h2"
    by (simp add: r then_do_def s)
  have "empty_project (obj h2 self)" using assms(2) update_attrs_df [of self h2] by (simp add: u)
  then have "rows (df (obj h2 self)) = []" using scan_prj_flag [OF s] by simp
  then show ?thesis
    by (simp add: u update_attrs_def then_do_def getattr_def setattr_def obj_def)
qed

text \<open>
  Claim C6.  The claim: in the empty-project state the subjects set reads as empty or absent,
  \<open>len\<close> is 0, iteration yields no item and indexing returns \<open>None\<close>, none of them raising.
  On the index built over a tree without files, iterating raises \<open>EmptyProject\<close> (the guard
  at the head of \<open>__iter__\<close>), and reading \<open>subjects\<close> raises \<open>AttributeError\<close>.
\<close>

theorem empty_project_iteration_counterexample:
  "fst (iter_rows 0 heap_none) = Inl EmptyProject
   \<and> fst (getprop 0 subjects heap_none) = Inl AttributeError"
  by (simp add: iter_rows_def getprop_def obj_def heap_none_def project_none_def)

text \<open>
  Claim C6 as amended: in the empty-project state \<open>len\<close> returns 0 and indexing returns
  \<open>None\<close>, without raising and without changing the index, and iterating raises
  \<open>EmptyProject\<close>; when a \<open>reset_filters\<close> that returns leaves the index in the empty-project
  state, the subjects set reads \<open>None\<close>.
\<close>

theorem empty_project_access:
  "(empty_project (obj h self) \<longrightarrow>
      len_project self h = (Inr 0, h) \<and> getitem self i h = (Inr None, h)
      \<and> iter_rows self h = (Inl EmptyProject, h))
   \<and> (fst (reset_filters rx walk self ext h) = Inr ()
        \<and> empty_project (obj (snd (reset_filters rx walk self ext h)) self) \<longrightarrow>
      subjects (obj (snd (reset_filters rx walk self ext h)) self) = Some None)"
  using reset_filters_empty_subjects [of rx walk self ext h]
  by (simp add: len_project_def getitem_def iter_rows_def)

lemma reset_heap_none:
  "fst (reset_filters contains_str walk_none 0 None heap_ab) = Inr ()
   \<and> empty_project (obj (snd (reset_filters contains_str walk_none 0 None heap_ab)) 0)"
  by code_simp

theorem empty_project_access_witness:
  "empty_project (obj heap_none 0)
   \<and> len_project 0 heap_none = (Inr 0, heap_none) \<and> getitem 0 0 heap_none = (Inr None, heap_none)
   \<and> iter_rows 0 heap_none = (Inl EmptyProject, heap_none)
   \<and> fst (reset_filters contains_str walk_none 0 None heap_ab) = Inr ()
   \<and> empty_project (obj (snd (reset_filters contains_str walk_none 0 None heap_ab)) 0)
   \<and> subjects (obj (snd (reset_filters contains_str walk_none 0 None heap_ab)) 0) = Some None"
proof -
  have e: "empty_project (obj heap_none 0)"
    by (simp add: heap_none_def project_none_def obj_def)
  show ?thesis
    using e reset_heap_none
      empty_project_access [of heap_none 0 0 contains_str walk_none None]
      empty_project_access [of heap_ab 0 0 contains_str walk_none None]
    by simp
qed

section \<open>Filter application is idempotent (C9)\<close>

lemma narrows_by_Inr: "narrows_by (\<lambda>r. True) Inr"
  by (simp add: narrows_by_def keep_rows_def)

lemma narrows_by_Inl: "narrows_by P (\<lambda>d. Inl e)"
  by (simp add: narrows_by_def)

lemma narrows_by_isin: "narrows_by (\<lambda>r. isin vals (cell c r)) (filter_isin e c vals)"
  by (auto simp add: narrows_by_def filter_isin_def)

lemma narrows_by_contains:
  "narrows_by (\<lambda>r. rx pat (the (cell c r)) \<noteq> negated) (filter_contains rx e negated c pat)"
  unfolding narrows_by_def
proof (intro allI impI conjI)
  fix d d' assume a: "filter_contains rx e negated c pat d = Inr d'"
  then show "d' = keep_rows (\<lambda>r. rx pat (the (cell c r)) \<noteq> negated) d"
    by (simp add: filter_contains_def split: if_splits)
  fix d2 :: dataframe assume b: "columns d2 = columns d \<and> set (rows d2) \<subseteq> set (rows d)"
  have c: "c \<in> set (columns d)" and n: "\<not> list_ex (\<lambda>r. cell c r = None) (rows d)"
    using a by (simp_all add: filter_contains_def split: if_splits)
  have "\<not> list_ex (\<lambda>r. cell c r = None) (rows d2)"
    using n b unfolding list_ex_iff by blast
  then show "filter_contains rx e negated c pat d2
               = Inr (keep_rows (\<lambda>r. rx pat (the (cell c r)) \<noteq> negated) d2)"
    using c b by (simp add: filter_contains_def)
qed

lemma narrows_by_bind:
  assumes "narrows_by P1 n1" "narrows_by P2 n2"
  shows "narrows_by (\<lambda>r. P1 r \<and> P2 r) (\<lambda>d. bind_err (n1 d) n2)"
  unfolding narrows_by_def
proof (intro allI impI)
  fix d d' assume a: "bind_err (n1 d) n2 = Inr d'"
  then obtain d1 where d1: "n1 d = Inr d1" and d2: "n2 d1 = Inr d'"
    by (cases "n1 d") (auto simp add: bind_err_def)
  note u1 = assms(1) [unfolded narrows_by_def, rule_format, OF d1]
  note u2 = assms(2) [unfolded narrows_by_def, rule_format, OF d2]
  have e1: "d1 = keep_rows P1 d" by (rule conjunct1 [OF u1])
  have f1: "n1 x = Inr (keep_rows P1 x)"
    if "columns x = columns d" "set (rows x) \<subseteq> set (rows d)" for x :: dataframe
    using conjunct2 [OF u1, rule_format, of x] that by blast
  have e2: "d' = keep_rows P2 d1" by (rule conjunct1 [OF u2])
  have f2: "n2 x = Inr (keep_rows P2 x)"
    if "columns x = columns d1" "set (rows x) \<subseteq> set (rows d1)" for x :: dataframe
    using conjunct2 [OF u2, rule_format, of x] that by blast
  have k: "\<And>x. keep_rows P2 (keep_rows P1 x) = keep_rows (\<lambda>r. P1 r \<and> P2 r) x"
    by (simp add: keep_rows_def)
  show "d' = keep_rows (\<lambda>r. P1 r \<and> P2 r) d \<and>
        (\<forall>x. columns x = columns d \<and> set (rows x) \<subseteq> set (rows d) \<longrightarrow>
             bind_err (n1 x) n2 = Inr (keep_rows (\<lambda>r. P1 r \<and> P2 r) x))"
  proof (intro conjI allI impI)
    show "d' = keep_rows (\<lambda>r. P1 r \<and> P2 r) d" using e1 e2 k by simp
  next
    fix x :: dataframe
    assume x: "columns x = columns d \<and> set (rows x) \<subseteq> set (rows d)"
    then have a1: "n1 x = Inr (keep_rows P1 x)" using f1 [of x] by blast
    have "columns (keep_rows P1 x) = columns d1" "set (rows (keep_rows P1 x)) \<subseteq> set (rows d1)"
      using x by (auto simp add: e1 keep_rows_def)
    then have "n2 (keep_rows P1 x) = Inr (keep_rows P2 (keep_rows P1 x))"
      by (rule f2)
    with a1 show "bind_err (n1 x) n2 = Inr (keep_rows (\<lambda>r. P1 r \<and> P2 r) x)"
      by (simp add: bind_err_def k)
  qed
qed

lemma narrows_by_idem:
  assumes "narrows_by P n" "n d = Inr d'"
  shows "n d' = Inr d'"
proof -
  note u = assms(1) [unfolded narrows_by_def, rule_format, OF assms(2)]
  have e: "d' = keep_rows P d" by (rule conjunct1 [OF u])
  have f: "n x = Inr (keep_rows P x)"
    if "columns x = columns d" "set (rows x) \<subseteq> set (rows d)" for x :: dataframe
    using conjunct2 [OF u, rule_format, of x] that by blast
  have "columns d' = columns d" "set (rows d') \<subseteq> set (rows d)"
    by (auto simp add: e keep_rows_def)
  then have "n d' = Inr (keep_rows P d')" by (rule f)
  then show ?thesis by (simp add: e keep_rows_def)
qed

lemma narrows_apply_slot:
  assumes "\<And>vals. \<exists>P. narrows_by P (narrow vals)"
  shows "\<exists>P. narrows_by P (apply_slot fv k narrow)"
proof (cases "slot_at fv k")
  case (Inl e)
  then have "apply_slot fv k narrow = (\<lambda>d. Inl e)" by (simp add: apply_slot_def bind_err_def fun_eq_iff)
  then show ?thesis using narrows_by_Inl by auto
next
  case (Inr s)
  show ?thesis
  proof (cases "truthy s")
    case True
    then have "apply_slot fv k narrow = narrow (the s)"
      using Inr by (simp add: apply_slot_def bind_err_def fun_eq_iff)
    then show ?thesis using assms by simp
  next
    case False
    then have "apply_slot fv k narrow = Inr"
      using Inr by (simp add: apply_slot_def bind_err_def fun_eq_iff)
    then show ?thesis using narrows_by_Inr by auto
  qed
qed

lemma narrows_tag:
  "\<exists>P. narrows_by P (\<lambda>d. bind_err (slot_at fv k) (\<lambda>s. case s of None \<Rightarrow> Inr d
          | Some tags \<Rightarrow> filter_contains rx e negated c (join_str sep tags) d))"
proof (cases "slot_at fv k")
  case (Inl e)
  then show ?thesis by (simp add: bind_err_def narrows_by_Inl)
next
  case (Inr s)
  then show ?thesis
  proof (cases s)
    case None
    then show ?thesis using Inr narrows_by_Inr by (auto simp add: bind_err_def)
  next
    case (Some tags)
    then show ?thesis using Inr by (auto simp add: bind_err_def intro!: exI narrows_by_contains)
  qed
qed

text \<open>
  Claim C9.  Filter application is idempotent: for every table, every six-slot list and
  every data-class index, when \<open>applying_filters\<close> returns a table, applying the same
  filters to that table returns it unchanged.  (When the first application raises, because a
  filtered column is missing or a slot cannot be read, there is no table to apply them to.)
\<close>

theorem applying_filters_idempotent:
  assumes "applying_filters rx fv dc d = Inr d'"
  shows "applying_filters rx fv dc d' = Inr d'"
proof (cases "rows d = []")
  case True
  then show ?thesis using assms by (simp add: applying_filters_def)
next
  case False
  obtain P0 where p0: "narrows_by P0 (apply_slot fv 0 (filter_isin AttributeError (Name ''Subject'')))"
    using narrows_apply_slot [of "filter_isin AttributeError (Name ''Subject'')"] narrows_by_isin by blast
  obtain P1 where p1: "narrows_by P1 (apply_slot fv 1 (filter_isin AttributeError (Name ''Session'')))"
    using narrows_apply_slot [of "filter_isin AttributeError (Name ''Session'')"] narrows_by_isin by blast
  have "\<And>vals. \<exists>P. narrows_by P ((if dc = 0 then filter_isin AttributeError (Name ''DataType'')
                     else filter_isin AttributeError (Name ''Pipeline'')) vals)"
    using narrows_by_isin by auto
  then obtain P2 where p2: "narrows_by P2 (apply_slot fv 2
                    (if dc = 0 then filter_isin AttributeError (Name ''DataType'')
                     else filter_isin AttributeError (Name ''Pipeline'')))"
    using narrows_apply_slot by blast
  have "\<And>vals. \<exists>P. narrows_by P ((if dc = 1 then filter_isin AttributeError (Name ''Step'')
                     else if dc = 2 then filter_isin AttributeError (Name ''Result'')
                     else (\<lambda>vals d. Inr d)) vals)"
    using narrows_by_isin narrows_by_Inr by auto
  then obtain P3 where p3: "narrows_by P3 (apply_slot fv 3
                    (if dc = 1 then filter_isin AttributeError (Name ''Step'')
                     else if dc = 2 then filter_isin AttributeError (Name ''Result'')
                     else (\<lambda>vals d. Inr d)))"
    using narrows_apply_slot by blast
  obtain P4 where p4: "narrows_by P4 (\<lambda>d. bind_err (slot_at fv 4) (\<lambda>s. case s of
                      None \<Rightarrow> Inr d
                    | Some file_tag \<Rightarrow>
                        filter_contains rx AttributeError False (Name ''Filename'')
                          (join_str ''&'' file_tag) d))"
    using narrows_tag by blast
  obtain P5 where p5: "narrows_by P5 (\<lambda>d. bind_err (slot_at fv 5) (\<lambda>s. case s of
                      None \<Rightarrow> Inr d
                    | Some ignore \<Rightarrow>
                        filter_contains rx AttributeError True (Name ''Filename'')
                          (join_str ''&'' ignore) d))"
    using narrows_tag by blast
  have c: "filter_chain rx fv dc = (\<lambda>d.
     bind_err (apply_slot fv 0 (filter_isin AttributeError (Name ''Subject'')) d) (\<lambda>d.
     bind_err (apply_slot fv 1 (filter_isin AttributeError (Name ''Session'')) d) (\<lambda>d.
     bind_err (apply_slot fv 2
                 (if dc = 0 then filter_isin AttributeError (Name ''DataType'')
                  else filter_isin AttributeError (Name ''Pipeline'')) d) (\<lambda>d.
     bind_err (apply_slot fv 3
                 (if dc = 1 then filter_isin AttributeError (Name ''Step'')
                  else if dc = 2 then filter_isin AttributeError (Name ''Result'')
                  else (\<lambda>vals d. Inr d)) d) (\<lambda>d.
     bind_err (bind_err (slot_at fv 4) (\<lambda>s. case s of
                   None \<Rightarrow> Inr d
                 | Some file_tag \<Rightarrow>
                     filter_contains rx AttributeError False (Name ''Filename'')
                       (join_str ''&'' file_tag) d)) (\<lambda>d.
     bind_err (slot_at fv 5) (\<lambda>s. case s of
                   None \<Rightarrow> Inr d
                 | Some ignore \<Rightarrow>
                     filter_contains rx AttributeError True (Name ''Filename'')
                       (join_str ''&'' ignore) d)))))))"
    by (rule ext) (rule filter_chain_def)
  have n: "narrows_by (\<lambda>r. P0 r \<and> P1 r \<and> P2 r \<and> P3 r \<and> P4 r \<and> P5 r) (filter_chain rx fv dc)"
    unfolding c
    by (rule narrows_by_bind [OF p0 narrows_by_bind [OF p1 narrows_by_bind [OF p2
             narrows_by_bind [OF p3 narrows_by_bind [OF p4 p5]]]]])
  have f: "filter_chain rx fv dc d = Inr d'" using assms False by (simp add: applying_filters_def)
  have "filter_chain rx fv dc d' = Inr d'" by (rule narrows_by_idem [OF n f])
  then show ?thesis by (simp add: applying_filters_def)
qed

theorem applying_filters_idempotent_witness:
  "applying_filters contains_str [Some [''A''], None, Some [''func''], None, Some [''nii''], Some [''txt'']]
     0 frame_ab = Inr frame_a
   \<and> applying_filters contains_str [Some [''A''], None, Some [''func''], None, Some [''nii''], Some [''txt'']]
     0 frame_a = Inr frame_a"
proof -
  have a: "applying_filters contains_str
             [Some [''A''], None, Some [''func''], None, Some [''nii''], Some [''txt'']] 0 frame_ab
           = Inr frame_a"
    by code_simp
  show ?thesis using a applying_filters_idempotent [OF a] by simp
qed

section \<open>The scan and the order of enumeration\<close>






























section \<open>The positional part of set\_filters\<close>

lemma setattr_wired:
  "(\<And>p. filters (f p) = filters p \<and> dc_idx (f p) = dc_idx p) \<Longrightarrow>
   holds_after (wired self a dc) (setattr self f)"
  by (simp add: holds_after_def wired_def setattr_def obj_def)

lemma derive_wired:
  "(\<And>p x. filters (f x p) = filters p \<and> dc_idx (f x p) = dc_idx p) \<Longrightarrow>
   holds_after (wired self a dc) (derive self c f)"
  by (auto simp add: holds_after_def wired_def derive_def setattr_def obj_def split: sum.splits)

lemma update_attrs_wired: "holds_after (wired self a dc) (update_attrs self)"
  unfolding update_attrs_def update_body_def
  by (intro holds_after_intros setattr_wired derive_wired) simp_all

lemma scan_prj_wired: "holds_after (wired self a dc) (scan_prj rx walk self)"
  unfolding scan_prj_def scan_filter_def scan_reorder_def
  by (intro holds_after_intros setattr_wired update_attrs_wired) simp_all

lemma update_attrs_post:
  assumes "update_attrs self h = (Inr (), h')" "dc_idx (obj h self) \<in> {0, 1, 2}"
  shows "derived_ok (obj h' self)"
  using assms
  by (auto simp add: update_attrs_def update_body_def then_do_def getattr_def setattr_def derive_def
        except_all_def ret_def obj_def derived_ok_def truthy_def
        split: sum.splits prod.splits if_splits)

lemma reset_filters_post:
  assumes r: "reset_filters rx walk self ext h = (Inr (), h1)"
    and dc: "dc_idx (obj h self) \<in> {0, 1, 2}"
  shows "wired self (filters (obj h1 self)) (dc_idx (obj h self)) h1 \<and> derived_ok (obj h1 self)"
proof -
  define h0 where "h0 = snd (then_do (new_filters self) (\<lambda>_.
      setattr self (\<lambda>p. p\<lparr>ext_attr := Some (if truthy ext then the ext else img_ext p)\<rparr>)) h)"
  have w0: "wired self (nxt h) (dc_idx (obj h self)) h0"
    by (simp add: h0_def then_do_def new_filters_def setattr_def wired_def obj_def)
  have e: "reset_filters rx walk self ext h
             = then_do (scan_prj rx walk self) (\<lambda>_. update_attrs self) h0"
    by (simp add: reset_filters_def h0_def then_do_def new_filters_def setattr_def)
  obtain h2 where s: "scan_prj rx walk self h0 = (Inr (), h2)"
    using r unfolding e then_do_def
    by (cases "scan_prj rx walk self h0") (auto split: sum.splits)
  have u: "update_attrs self h2 = (Inr (), h1)" using r by (simp add: e then_do_def s)
  have w2: "wired self (nxt h) (dc_idx (obj h self)) h2"
    using holds_afterD [OF scan_prj_wired w0, of rx walk] by (simp add: s)
  have w1: "wired self (nxt h) (dc_idx (obj h self)) h1"
    using holds_afterD [OF update_attrs_wired w2] by (simp add: u)
  have "dc_idx (obj h2 self) \<in> {0, 1, 2}" using w2 dc by (simp add: wired_def)
  then have "derived_ok (obj h1 self)" using update_attrs_post [OF u] by simp
  moreover have "filters (obj h1 self) = nxt h" using w1 by (simp add: wired_def)
  ultimately show ?thesis using w1 by simp
qed

lemma remove1_keeps: "c \<noteq> t \<Longrightarrow> t \<in> set res \<Longrightarrow> t \<in> set (remove1 c res)"
  by simp

lemma check_arguments_keeps:
  assumes "t \<in> set res" "Some t \<notin> set vocabulary"
  shows "t \<in> set (snd (check_arguments args res vocabulary))"
proof -
  have "t \<in> set (fold (\<lambda>comp res. if comp \<in> set res then remove1 comp res else res) flt res)"
    if "t \<notin> set flt" for flt
    using that assms(1)
  proof (induction flt arbitrary: res)
    case Nil
    then show ?case by simp
  next
    case (Cons c flt)
    then have "t \<in> set (if c \<in> set res then remove1 c res else res)" by auto
    then show ?case using Cons by simp
  qed
  then show ?thesis using assms(2) by (simp add: check_arguments_def Let_def)
qed

lemma obj_with_slots [simp]: "obj (with_slots h a sl) self = obj h self"
  by (simp add: with_slots_def obj_def)

lemma cells_with_slots [simp]: "cells (with_slots h a sl) a = Some sl"
  by (simp add: with_slots_def)

lemma with_slots_twice [simp]: "with_slots (with_slots h a sl) a sl' = with_slots h a sl'"
  by (simp add: with_slots_def)

lemma set_filter_eq:
  "filters (obj h self) = a \<Longrightarrow> k < length sl \<Longrightarrow>
   set_filter self k v (with_slots h a sl) = (Inr (), with_slots h a (sl[k := v]))"
  by (simp add: set_filter_def Let_def) (simp add: with_slots_def)

lemma match_level_eq:
  "filters (obj h self) = a \<Longrightarrow> k < length sl \<Longrightarrow> sl ! k = None \<Longrightarrow>
   match_level self k vocabulary args res (with_slots h a sl)
   = (Inr (thread args (Some vocabulary) res),
      with_slots h a (sl[k := matched (Some vocabulary) args]))"
  by (simp add: match_level_def merge_slot_def get_filter_def slot_at_def then_do_def ret_def
        set_filter_eq check_arguments_def Let_def truthy_def thread_def matched_def)

lemma match_or_clear_eq:
  "filters (obj h self) = a \<Longrightarrow> k < length sl \<Longrightarrow> sl ! k = None \<Longrightarrow> prop (obj h self) = Some v \<Longrightarrow>
   match_or_clear self k prop args res (with_slots h a sl)
   = (Inr (thread args (if truthy v then v else None) res),
      with_slots h a (sl[k := matched (if truthy v then v else None) args]))"
  by (cases v)
     (simp_all add: match_or_clear_def getprop_def then_do_def match_level_eq set_filter_eq ret_def
        truthy_def thread_def matched_def split: list.splits)

lemma thread_None [simp]: "thread args None res = res"
  by (simp add: thread_def)

lemma matched_None [simp]: "matched None args = None"
  by (simp add: matched_def)

lemma match_levels_eq:
  assumes ok: "derived_ok (obj h self)" and a: "filters (obj h self) = a"
  shows "match_levels self args (with_slots h a [None, None, None, None, s4, s5]) =
     (Inr (residuals_of (obj h self) args),
      with_slots h a (map (\<lambda>lv. matched lv args) (levels (obj h self)) @ [s4, s5]))"
proof -
  obtain sv where sv: "subjects (obj h self) = Some sv" using ok by (auto simp add: derived_ok_def)
  obtain ev where ev: "sessions (obj h self) = Some ev" using ok by (auto simp add: derived_ok_def)
  obtain dv where dv: "dtypes (obj h self) = Some dv" using ok by (auto simp add: derived_ok_def)
  obtain pv where pv: "pipelines (obj h self) = Some pv" using ok by (auto simp add: derived_ok_def)
  obtain tv where tv: "steps (obj h self) = Some tv" using ok by (auto simp add: derived_ok_def)
  obtain rv where rv: "results (obj h self) = Some rv" using ok by (auto simp add: derived_ok_def)
  have se: "truthy sv \<Longrightarrow> \<not> single_session (obj h self) \<Longrightarrow> \<exists>vocabulary. ev = Some vocabulary"
    using ok sv ev by (auto simp add: derived_ok_def)
  show ?thesis
  proof (cases "truthy sv")
    case False
    then show ?thesis
      using a sv ev dv pv tv rv
      by (simp add: match_levels_def then_do_def getprop_def getattr_def set_filter_eq
            match_or_clear_eq ret_def levels_def residuals_of_def)
  next
    case True
    then obtain vs where vs: "sv = Some vs" by (cases sv) (auto simp add: truthy_def)
    show ?thesis
    proof (cases "single_session (obj h self)")
      case s: True
      then show ?thesis
        using a sv ev dv pv tv rv True vs
        by (simp add: match_levels_def then_do_def getprop_def getattr_def set_filter_eq
              match_level_eq match_or_clear_eq ret_def levels_def residuals_of_def)
    next
      case s: False
      obtain es where es: "ev = Some es" using se [OF True s] by blast
      show ?thesis
        using a sv ev dv pv tv rv True vs s es
        by (simp add: match_levels_def then_do_def getprop_def getattr_def set_filter_eq
              match_level_eq match_or_clear_eq ret_def levels_def residuals_of_def)
    qed
  qed
qed

lemma then_do_Inr_elim:
  assumes "then_do m f s = (Inr y, s'')"
  obtains x s' where "m s = (Inr x, s')" "f x s' = (Inr y, s'')"
  using assms unfolding then_do_def
  by (cases "m s") (auto split: sum.splits)

lemma fold_thread_keeps:
  "t \<in> set res \<Longrightarrow>
   \<forall>lv\<in>set lvs. case lv of None \<Rightarrow> True | Some vocabulary \<Rightarrow> Some t \<notin> set vocabulary \<Longrightarrow>
   t \<in> set (fold (thread args) lvs res)"
proof (induction lvs arbitrary: res)
  case Nil
  then show ?case by simp
next
  case (Cons lv lvs)
  have "t \<in> set (thread args lv res)"
  proof (cases lv)
    case None
    then show ?thesis using Cons.prems(1) by simp
  next
    case (Some vocabulary)
    then have "Some t \<notin> set vocabulary" using Cons.prems(2) by simp
    then show ?thesis using Some Cons.prems(1) by (simp add: thread_def check_arguments_keeps)
  qed
  then show ?case using Cons by simp
qed

lemma residuals_unmatched:
  assumes "t \<in> set args" "\<not> in_vocabulary p t"
  shows "residuals_of p args \<noteq> []"
proof -
  have "\<forall>lv\<in>set (levels p). case lv of None \<Rightarrow> True | Some vocabulary \<Rightarrow> Some t \<notin> set vocabulary"
    using assms(2) by (auto simp add: in_vocabulary_def list_ex_iff split: option.splits)
  then have "t \<in> set (residuals_of p args)"
    unfolding residuals_of_def using assms(1) by (intro fold_thread_keeps)
  then show ?thesis by auto
qed

lemma wired_with_slots: "wired self a dc h \<Longrightarrow> with_slots h a (replicate 6 None) = h"
  by (simp add: wired_def with_slots_def fun_upd_idem)

lemma replicate_6: "replicate 6 x = [x, x, x, x, x, x]"
  by (simp add: eval_nat_numeral)

lemma set_filters_after_reset:
  assumes r: "reset_filters rx walk self (ext_filter (obj h self)) h = (Inr (), h1)"
    and dc: "dc_idx (obj h self) \<in> {0, 1, 2}"
    and args: "args \<noteq> []"
  shows "set_filters rx walk self args [] h =
           (if residuals_of (obj h1 self) args \<noteq> []
            then (Inl (raiseerror InputValueError (''Wrong filter input:'' @ py_repr_tuple args)),
                  with_slots h1 (filters (obj h1 self))
                    (map (\<lambda>lv. matched lv args) (levels (obj h1 self)) @ [None, None]))
            else then_do (apply_current_filters rx self) (\<lambda>_. update_attrs self)
                   (with_slots h1 (filters (obj h1 self))
                      (map (\<lambda>lv. matched lv args) (levels (obj h1 self)) @ [None, None])))"
proof -
  note post = reset_filters_post [OF r dc]
  have w: "with_slots h1 (filters (obj h1 self)) [None, None, None, None, None, None] = h1"
    using wired_with_slots [OF conjunct1 [OF post]] by (simp add: replicate_6)
  have m: "match_levels self args h1 =
     (Inr (residuals_of (obj h1 self) args),
      with_slots h1 (filters (obj h1 self))
        (map (\<lambda>lv. matched lv args) (levels (obj h1 self)) @ [None, None]))"
    using match_levels_eq [OF conjunct2 [OF post] refl, of args None None] by (simp add: w)
  show ?thesis
    using r args m
    by (simp add: set_filters_def match_args_def then_do_def getattr_def raise_def ret_def)
qed

section \<open>Unmatched positional tokens (C3)\<close>

text \<open>
  The tuple as Python writes it: \<open>('Z',)\<close>; \<open>("it's",)\<close>; and \<open>('a\\b', '\t\xff')\<close> for a
  backslash, a tab and the byte 255.
\<close>

lemma py_repr_examples:
  "py_repr_tuple [''Z''] = ''('' @ [CHR 0x27] @ ''Z'' @ [CHR 0x27] @ '',)''
   \<and> py_repr_tuple [''it'' @ [CHR 0x27] @ ''s'']
       = ''('' @ [CHR 0x22] @ ''it'' @ [CHR 0x27] @ ''s'' @ [CHR 0x22] @ '',)''
   \<and> py_repr_tuple [''a'' @ [CHR 0x5C] @ ''b'', [CHR 0x09, CHR 0xFF]]
       = ''('' @ [CHR 0x27] @ ''a'' @ [CHR 0x5C, CHR 0x5C] @ ''b'' @ [CHR 0x27] @ '', ''
           @ [CHR 0x27, CHR 0x5C] @ ''t'' @ [CHR 0x5C] @ ''xff'' @ [CHR 0x27] @ '')''"
  by code_simp

text \<open>
  Claim C3.  The claim: a positional token that matches no vocabulary makes the call fail
  with an invalid-filter error that names the token, raised as a distinct, catchable
  condition that carries the input and does not terminate the caller's process.  On the
  example index with subjects \<open>A\<close> and \<open>B\<close>, \<open>set_filters("Z")\<close> ends in \<open>SystemExit\<close>:
  \<open>raiseerror\<close> wrote the message to stderr and called \<open>sys.exit()\<close>.
\<close>

theorem set_filters_unknown_token_counterexample:
  "fst (set_filters contains_str walk_ab 0 [''Z''] [] heap_ab)
   = Inl (SystemExit InputValueError (''Wrong filter input:('' @ [CHR 0x27] @ ''Z'' @ [CHR 0x27] @ '',)''))"
  by code_simp

text \<open>
  Claim C3 as amended: for every index with a valid data-class index and every call of
  \<open>set_filters\<close> with positional tokens only whose reset returns, a token that is in none
  of the vocabularies consulted after that reset makes the call end in \<open>SystemExit\<close>, after
  the message \<open>Wrong filter input:\<close> followed by the whole positional tuple; on the example
  index \<open>set_filters("Z")\<close> does so and \<open>set_filters("A")\<close> returns with the table narrowed
  to the rows of subject \<open>A\<close>.
\<close>

theorem set_filters_unmatched_exits:
  assumes "reset_filters rx walk self (ext_filter (obj h self)) h = (Inr (), h1)"
    and "dc_idx (obj h self) \<in> {0, 1, 2}"
    and "t \<in> set args" and "\<not> in_vocabulary (obj h1 self) t"
  shows "fst (set_filters rx walk self args [] h)
         = Inl (SystemExit InputValueError (''Wrong filter input:'' @ py_repr_tuple args))"
proof -
  have "args \<noteq> []" using assms(3) by auto
  then show ?thesis
    using set_filters_after_reset [OF assms(1) assms(2)] residuals_unmatched [OF assms(3) assms(4)]
    by (simp add: raiseerror_def)
qed

lemma reset_heap_ab:
  "fst (reset_filters contains_str walk_ab 0 (ext_filter (obj heap_ab 0)) heap_ab) = Inr ()
   \<and> dc_idx (obj heap_ab 0) \<in> {0, 1, 2}
   \<and> \<not> in_vocabulary
         (obj (snd (reset_filters contains_str walk_ab 0 (ext_filter (obj heap_ab 0)) heap_ab)) 0) ''Z''"
  by code_simp

lemma set_filters_subject_A:
  "fst (set_filters contains_str walk_ab 0 [''A''] [] heap_ab) = Inr ()
   \<and> df (obj (snd (set_filters contains_str walk_ab 0 [''A''] [] heap_ab)) 0) = frame_a"
  by code_simp

theorem set_filters_unmatched_exits_witness:
  "fst (reset_filters contains_str walk_ab 0 (ext_filter (obj heap_ab 0)) heap_ab) = Inr ()
   \<and> dc_idx (obj heap_ab 0) \<in> {0, 1, 2}
   \<and> ''Z'' \<in> set [''Z'']
   \<and> \<not> in_vocabulary
         (obj (snd (reset_filters contains_str walk_ab 0 (ext_filter (obj heap_ab 0)) heap_ab)) 0) ''Z''
   \<and> fst (set_filters contains_str walk_ab 0 [''Z''] [] heap_ab)
       = Inl (SystemExit InputValueError (''Wrong filter input:'' @ py_repr_tuple [''Z'']))
   \<and> fst (set_filters contains_str walk_ab 0 [''A''] [] heap_ab) = Inr ()
   \<and> df (obj (snd (set_filters contains_str walk_ab 0 [''A''] [] heap_ab)) 0) = frame_a"
proof -
  let ?r = "reset_filters contains_str walk_ab 0 (ext_filter (obj heap_ab 0)) heap_ab"
  have r: "?r = (Inr (), snd ?r)" using reset_heap_ab by (metis prod.collapse)
  show ?thesis
    using set_filters_unmatched_exits [OF r, of "''Z''" "[''Z'']"] reset_heap_ab
      set_filters_subject_A
    by simp
qed

section \<open>Tokens that occur in several vocabularies (C10)\<close>

lemma filter_remove1_out: "\<not> P c \<Longrightarrow> filter P (remove1 c xs) = filter P xs"
  by (induction xs) auto

lemma remove1_single:
  "count (mset xs) c \<le> 1 \<Longrightarrow> remove1 c xs = filter (\<lambda>a. a \<noteq> c) xs"
proof (induction xs)
  case Nil
  then show ?case by simp
next
  case (Cons x xs)
  show ?case
  proof (cases "x = c")
    case True
    then have "count (mset xs) c = 0" using Cons.prems by simp
    then have "c \<notin> set xs" by (simp add: count_eq_zero_iff)
    then have "filter (\<lambda>a. a \<noteq> c) xs = xs" by (auto simp add: filter_id_conv)
    then show ?thesis using True by simp
  next
    case False
    then have "count (mset xs) c \<le> 1" using Cons.prems by simp
    then show ?thesis using False Cons.IH by simp
  qed
qed

lemma fold_remove_all:
  "\<forall>c\<in>set flt. count (mset res) c \<le> count (mset flt) c \<Longrightarrow>
   fold (\<lambda>comp res. if comp \<in> set res then remove1 comp res else res) flt res
   = filter (\<lambda>a. a \<notin> set flt) res"
proof (induction flt arbitrary: res)
  case Nil
  then show ?case by simp
next
  case (Cons c flt)
  define res' where "res' = (if c \<in> set res then remove1 c res else res)"
  have m: "mset res' = mset res - {#c#}"
    by (simp add: res'_def)
  have pre: "\<forall>c'\<in>set flt. count (mset res') c' \<le> count (mset flt) c'"
  proof
    fix c' assume c': "c' \<in> set flt"
    have "count (mset res) c' \<le> count (mset (c # flt)) c'" using Cons.prems c' by simp
    then show "count (mset res') c' \<le> count (mset flt) c'"
      unfolding m by (cases "c' = c") auto
  qed
  have ih: "fold (\<lambda>comp res. if comp \<in> set res then remove1 comp res else res) flt res'
            = filter (\<lambda>a. a \<notin> set flt) res'"
    by (rule Cons.IH [OF pre])
  have "filter (\<lambda>a. a \<notin> set flt) res' = filter (\<lambda>a. a \<notin> set (c # flt)) res"
  proof (cases "c \<in> set flt")
    case True
    then have "filter (\<lambda>a. a \<notin> set flt) res' = filter (\<lambda>a. a \<notin> set flt) res"
      by (simp add: res'_def filter_remove1_out)
    moreover have "set (c # flt) = set flt" using True by auto
    ultimately show ?thesis by simp
  next
    case False
    have "count (mset res) c \<le> count (mset (c # flt)) c" using Cons.prems by simp
    moreover have "count (mset flt) c = 0" using False by (metis count_eq_zero_iff set_mset_mset)
    ultimately have one: "count (mset res) c \<le> 1" by simp
    have "res' = filter (\<lambda>a. a \<noteq> c) res"
    proof (cases "c \<in> set res")
      case True
      then show ?thesis using remove1_single [OF one] by (simp add: res'_def)
    next
      case False
      then have "filter (\<lambda>a. a \<noteq> c) res = res" by (auto simp add: filter_id_conv)
      then show ?thesis using False by (simp add: res'_def)
    qed
    then show ?thesis by (auto intro: filter_cong)
  qed
  then show ?case using ih by (simp add: res'_def)
qed

lemma check_arguments_residual:
  "snd (check_arguments args (filter R args) vocabulary)
   = filter (\<lambda>a. R a \<and> Some a \<notin> set vocabulary) args"
proof -
  define flt where "flt = filter (\<lambda>arg. Some arg \<in> set vocabulary) args"
  have "\<forall>c\<in>set flt. count (mset (filter R args)) c \<le> count (mset flt) c"
    by (auto simp add: flt_def)
  then have "fold (\<lambda>comp res. if comp \<in> set res then remove1 comp res else res) flt (filter R args)
             = filter (\<lambda>a. a \<notin> set flt) (filter R args)"
    by (rule fold_remove_all)
  also have "\<dots> = filter (\<lambda>a. R a \<and> Some a \<notin> set vocabulary) args"
    by (auto simp add: flt_def intro: filter_cong)
  finally show ?thesis by (simp add: check_arguments_def Let_def flt_def)
qed

lemma fold_thread_filter:
  "fold (thread args) lvs (filter R args)
   = filter (\<lambda>a. R a \<and> \<not> list_ex (\<lambda>lv. case lv of None \<Rightarrow> False
                                           | Some vocabulary \<Rightarrow> Some a \<in> set vocabulary) lvs) args"
proof (induction lvs arbitrary: R)
  case Nil
  then show ?case by simp
next
  case (Cons lv lvs)
  show ?case
  proof (cases lv)
    case None
    then show ?thesis using Cons [of R] by simp
  next
    case (Some vocabulary)
    have "thread args lv (filter R args) = filter (\<lambda>a. R a \<and> Some a \<notin> set vocabulary) args"
      using Some by (simp add: thread_def check_arguments_residual)
    then show ?thesis
      using Some Cons [of "\<lambda>a. R a \<and> Some a \<notin> set vocabulary"]
      by (auto intro: filter_cong)
  qed
qed

lemma residuals_of_filter:
  "residuals_of p args = filter (\<lambda>a. \<not> in_vocabulary p a) args"
  using fold_thread_filter [of args "levels p" "\<lambda>a. True"]
  by (simp add: residuals_of_def in_vocabulary_def)

lemma update_attrs_frame:
  "df (obj (snd (update_attrs self h)) self) = df (obj h self)
   \<and> single_session (obj (snd (update_attrs self h)) self) = single_session (obj h self)
   \<and> dc_idx (obj (snd (update_attrs self h)) self) = dc_idx (obj h self)"
  by (simp add: update_attrs_def update_body_def then_do_def getattr_def setattr_def derive_def
        except_all_def ret_def obj_def split: sum.splits prod.splits)

lemma update_attrs_columns_ok:
  "columns_ok (obj h self) \<Longrightarrow> columns_ok (obj (snd (update_attrs self h)) self)"
  using update_attrs_frame [of self h] by (simp add: columns_ok_def)

lemma scan_reorder_columns_ok:
  "scan_reorder self h = (Inr (), h') \<Longrightarrow> columns_ok (obj h' self)"
  by (auto simp add: scan_reorder_def then_do_def getattr_def lift_def setattr_def raise_def ret_def
        columns_ok_def select_columns_def obj_def split: option.splits sum.splits if_splits)

lemma scan_prj_columns_ok:
  assumes "scan_prj rx walk self h = (Inr (), h')"
  shows "columns_ok (obj h' self)"
proof (cases "parsing walk (path (obj h self)) (ds_type (obj h self)) (dc_idx (obj h self))")
  case (Inl e)
  then show ?thesis using assms by (simp add: scan_prj_def then_do_def getattr_def lift_def)
next
  case (Inr t)
  obtain fr single e where t: "t = (fr, single, e)" by (cases t)
  show ?thesis
  proof (cases e)
    case True
    then show ?thesis using scan_prj_empty [of walk h self fr single rx] Inr t assms
      by (auto simp add: obj_def empty_frame_def columns_ok_def)
  next
    case False
    define h0 where "h0 = snd (setattr self (\<lambda>p. p\<lparr>df := fr, single_session := single\<rparr>) h)"
    have s: "scan_prj rx walk self h =
               then_do (scan_filter rx self) (\<lambda>_.
               then_do (scan_reorder self) (\<lambda>_.
               then_do (update_attrs self) (\<lambda>_.
                 setattr self (\<lambda>p. p\<lparr>empty_project := False\<rparr>)))) h0"
      using Inr t False
      by (simp add: scan_prj_def then_do_def getattr_def lift_def setattr_def h0_def)
    from assms [unfolded s] obtain u1 h1 where "scan_filter rx self h0 = (Inr u1, h1)"
      and r1: "then_do (scan_reorder self) (\<lambda>_.
               then_do (update_attrs self) (\<lambda>_.
                 setattr self (\<lambda>p. p\<lparr>empty_project := False\<rparr>))) h1 = (Inr (), h')"
      by (rule then_do_Inr_elim)
    from r1 obtain u2 h2 where r2: "scan_reorder self h1 = (Inr u2, h2)"
      and r3: "then_do (update_attrs self) (\<lambda>_.
                 setattr self (\<lambda>p. p\<lparr>empty_project := False\<rparr>)) h2 = (Inr (), h')"
      by (rule then_do_Inr_elim)
    from r3 obtain u3 h3 where r4: "update_attrs self h2 = (Inr u3, h3)"
      and r5: "setattr self (\<lambda>p. p\<lparr>empty_project := False\<rparr>) h3 = (Inr (), h')"
      by (rule then_do_Inr_elim)
    have "columns_ok (obj h2 self)" using r2 scan_reorder_columns_ok by simp
    then have "columns_ok (obj h3 self)" using update_attrs_columns_ok [of h2 self] r4 by simp
    then show ?thesis using r5 by (auto simp add: setattr_def columns_ok_def obj_def)
  qed
qed

lemma reset_filters_columns_ok:
  assumes r: "reset_filters rx walk self ext h = (Inr (), h1)"
  shows "columns_ok (obj h1 self)"
proof -
  define h0 where "h0 = snd (then_do (new_filters self) (\<lambda>_.
      setattr self (\<lambda>p. p\<lparr>ext_attr := Some (if truthy ext then the ext else img_ext p)\<rparr>)) h)"
  have e: "reset_filters rx walk self ext h
             = then_do (scan_prj rx walk self) (\<lambda>_. update_attrs self) h0"
    by (simp add: reset_filters_def h0_def then_do_def new_filters_def setattr_def)
  from r [unfolded e] obtain u h2 where s: "scan_prj rx walk self h0 = (Inr u, h2)"
    and u: "update_attrs self h2 = (Inr (), h1)"
    by (rule then_do_Inr_elim)
  have "columns_ok (obj h2 self)" using s scan_prj_columns_ok by simp
  then show ?thesis using update_attrs_columns_ok [of h2 self] u by simp
qed

lemma update_attrs_cells:
  "cells (snd (update_attrs self h)) = cells h
   \<and> filters (obj (snd (update_attrs self h)) self) = filters (obj h self)"
  by (simp add: update_attrs_def update_body_def then_do_def getattr_def setattr_def derive_def
        except_all_def ret_def obj_def split: sum.splits prod.splits)

lemma filter_chain_returns:
  assumes "reorder_columns dc single = Some cs" "columns d = map Name cs"
    and "truthy s1 \<longrightarrow> \<not> single"
  shows "\<exists>d'. filter_chain rx [s0, s1, s2, s3, None, None] dc d = Inr d' \<and> columns d' = columns d"
  using assms
  by (auto simp add: reorder_columns_def filter_chain_def apply_slot_def slot_at_def bind_err_def
        filter_isin_def keep_rows_def split: if_splits)

lemma update_attrs_returns:
  assumes "columns_ok (obj h self)"
  shows "\<exists>h'. update_attrs self h = (Inr (), h')"
proof (cases "rows (df (obj h self)) = []")
  case True
  then show ?thesis by (simp add: update_attrs_def then_do_def getattr_def setattr_def)
next
  case False
  then obtain cs where cs: "reorder_columns (dc_idx (obj h self)) (single_session (obj h self)) = Some cs"
    and c: "columns (df (obj h self)) = map Name cs"
    using assms by (auto simp add: columns_ok_def)
  show ?thesis
    using False cs c
    by (auto simp add: reorder_columns_def update_attrs_def update_body_def then_do_def getattr_def
          setattr_def derive_def sorted_values_def except_all_def ret_def obj_def
          split: if_splits)
qed

lemma applying_matched_returns:
  assumes "columns_ok p"
  shows "\<exists>d'. applying_filters rx (map (\<lambda>lv. matched lv args) (levels p) @ [None, None])
                 (dc_idx p) (df p) = Inr d'
              \<and> columns_ok (p\<lparr>df := d'\<rparr>)"
proof (cases "rows (df p) = []")
  case True
  then show ?thesis by (simp add: applying_filters_def columns_ok_def)
next
  case False
  then obtain cs where cs: "reorder_columns (dc_idx p) (single_session p) = Some cs"
    and c: "columns (df p) = map Name cs"
    using assms by (auto simp add: columns_ok_def)
  have t: "truthy (matched (if truthy (the (subjects p)) \<and> \<not> single_session p
                             then the (sessions p) else None) args) \<longrightarrow> \<not> single_session p"
    by (auto simp add: truthy_def)
  have l: "map (\<lambda>lv. matched lv args) (levels p) @ [None, None]
           = [matched (levels p ! 0) args,
              matched (if truthy (the (subjects p)) \<and> \<not> single_session p
                       then the (sessions p) else None) args,
              matched (levels p ! 2) args, matched (levels p ! 3) args, None, None]"
    by (simp add: levels_def)
  obtain d' where d: "filter_chain rx (map (\<lambda>lv. matched lv args) (levels p) @ [None, None])
                        (dc_idx p) (df p) = Inr d'"
    and cd: "columns d' = columns (df p)"
    using filter_chain_returns [OF cs c t, of rx "matched (levels p ! 0) args"
            "matched (levels p ! 2) args" "matched (levels p ! 3) args"]
    unfolding l by blast
  have "columns_ok (p\<lparr>df := d'\<rparr>)" using cs c cd by (simp add: columns_ok_def)
  then show ?thesis using False d by (auto simp add: applying_filters_def)
qed

lemma init_project_ff:
  "fst (init_project contains_str walk_ff ''/p'' [''nii''] ds_niral heap0) = Inr 0
   \<and> obj (snd (init_project contains_str walk_ff ''/p'' [''nii''] ds_niral heap0)) 0 = project_ff"
  by code_simp

text \<open>
  Claim C10.  In a call of \<open>set_filters\<close> with positional tokens only, every level matches
  against the full argument tuple: when the reset returns and every token is in at least one
  of the vocabularies consulted, the call returns (no invalid-filter error is raised), and
  the slot of every level holds all the tokens of the tuple that are in the vocabulary of
  that level, so a token that is in two vocabularies is in both slots, while it left the
  residual list at the first of them.  In the example the token \<open>func\<close> is the subject
  and the data type: it is stored in slot 0 and in slot 2.
\<close>

theorem set_filters_all_matched:
  assumes r: "reset_filters rx walk self (ext_filter (obj h self)) h = (Inr (), h1)"
    and dc: "dc_idx (obj h self) \<in> {0, 1, 2}"
    and args: "args \<noteq> []"
    and all: "\<forall>t\<in>set args. in_vocabulary (obj h1 self) t"
  shows "fst (set_filters rx walk self args [] h) = Inr ()
         \<and> cells (snd (set_filters rx walk self args [] h))
             (filters (obj (snd (set_filters rx walk self args [] h)) self))
           = Some (map (\<lambda>lv. matched lv args) (levels (obj h1 self)) @ [None, None])"
proof -
  define a where "a = filters (obj h1 self)"
  define fv where "fv = map (\<lambda>lv. matched lv args) (levels (obj h1 self)) @ [None, None]"
  define H where "H = with_slots h1 a fv"
  have res: "residuals_of (obj h1 self) args = []"
    using all by (simp add: residuals_of_filter filter_empty_conv)
  have s: "set_filters rx walk self args [] h
             = then_do (apply_current_filters rx self) (\<lambda>_. update_attrs self) H"
    using set_filters_after_reset [OF r dc args] res by (simp add: H_def a_def fv_def)
  have oh: "obj H self = obj h1 self" by (simp add: H_def)
  have ch: "cells H a = Some fv" by (simp add: H_def)
  obtain d' where d: "applying_filters rx fv (dc_idx (obj h1 self)) (df (obj h1 self)) = Inr d'"
    and cok: "columns_ok ((obj h1 self)\<lparr>df := d'\<rparr>)"
    using applying_matched_returns [OF reset_filters_columns_ok [OF r], of rx args]
    by (auto simp add: fv_def)
  define H2 where "H2 = snd (setattr self (\<lambda>p. p\<lparr>df := d'\<rparr>) H)"
  have ap: "apply_current_filters rx self H = (Inr (), H2)"
    using d by (simp add: apply_current_filters_def oh ch a_def [symmetric] H2_def setattr_def)
  have o2: "obj H2 self = (obj h1 self)\<lparr>df := d'\<rparr>"
    by (simp add: H2_def setattr_def obj_def oh [unfolded obj_def])
  have c2: "cells H2 = cells H" by (simp add: H2_def setattr_def)
  obtain H3 where u: "update_attrs self H2 = (Inr (), H3)"
    using update_attrs_returns [of H2 self] cok o2 by auto
  have fin: "set_filters rx walk self args [] h = (Inr (), H3)"
    by (simp add: s then_do_def ap u)
  have "cells H3 = cells H2" and "filters (obj H3 self) = filters (obj H2 self)"
    using update_attrs_cells [of self H2] u by simp_all
  then have "cells H3 (filters (obj H3 self)) = Some fv"
    using c2 ch o2 by (simp add: a_def)
  then show ?thesis using fin by (simp add: fv_def)
qed

lemma reset_heap_ff:
  "fst (reset_filters contains_str walk_ff 0 (ext_filter (obj heap_ff 0)) heap_ff) = Inr ()
   \<and> dc_idx (obj heap_ff 0) \<in> {0, 1, 2}
   \<and> (\<forall>t\<in>set [''func''].
         in_vocabulary
           (obj (snd (reset_filters contains_str walk_ff 0 (ext_filter (obj heap_ff 0)) heap_ff)) 0) t)
   \<and> map (\<lambda>lv. matched lv [''func''])
         (levels (obj (snd (reset_filters contains_str walk_ff 0 (ext_filter (obj heap_ff 0)) heap_ff)) 0))
       = [Some [''func''], None, Some [''func''], None]"
  by code_simp

theorem set_filters_all_matched_witness:
  "fst (reset_filters contains_str walk_ff 0 (ext_filter (obj heap_ff 0)) heap_ff) = Inr ()
   \<and> dc_idx (obj heap_ff 0) \<in> {0, 1, 2}
   \<and> [''func''] \<noteq> []
   \<and> in_vocabulary
         (obj (snd (reset_filters contains_str walk_ff 0 (ext_filter (obj heap_ff 0)) heap_ff)) 0)
         ''func''
   \<and> fst (set_filters contains_str walk_ff 0 [''func''] [] heap_ff) = Inr ()
   \<and> cells (snd (set_filters contains_str walk_ff 0 [''func''] [] heap_ff))
         (filters (obj (snd (set_filters contains_str walk_ff 0 [''func''] [] heap_ff)) 0))
       = Some [Some [''func''], None, Some [''func''], None, None, None]"
proof -
  let ?r = "reset_filters contains_str walk_ff 0 (ext_filter (obj heap_ff 0)) heap_ff"
  have r: "?r = (Inr (), snd ?r)" using reset_heap_ff by (metis prod.collapse)
  have d: "dc_idx (obj heap_ff 0) \<in> {0, 1, 2}" using reset_heap_ff by blast
  have n: "[''func''] \<noteq> []" by simp
  have a: "\<forall>t\<in>set [''func'']. in_vocabulary (obj (snd ?r) 0) t" using reset_heap_ff by blast
  show ?thesis
    using set_filters_all_matched [OF r d n a] reset_heap_ff by simp
qed

section \<open>The scan is deterministic (C8)\<close>
































end
